theory Spec2Isabelle
  imports Main "HOL-Library.Sublist" "HOL-Library.Word"
begin

section \<open>JavaScript strings\<close>

text \<open>
  A JavaScript string is modelled as the list of its code units, \<^typ>\<open>string\<close>.
  Every pattern of the source is ASCII; the code units from 0 to 255 are the characters
  of \<^typ>\<open>char\<close>, higher code units are outside the model.
\<close>

text \<open>\<^verbatim>\<open>s.includes(sub)\<close>: \<open>sub\<close> occurs in \<open>s\<close> as a contiguous block.\<close>

fun str_includes :: "string \<Rightarrow> string \<Rightarrow> bool" where
  "str_includes [] sub = (sub = [])"
| "str_includes (c # cs) sub = (prefix sub (c # cs) \<or> str_includes cs sub)"

text \<open>
  White space and line terminators of \<^verbatim>\<open>String.prototype.trim\<close> and of the regular
  expression class \<^verbatim>\<open>\s\<close>, among the code units below 256: TAB, LF, VT, FF, CR, space
  and the no-break space.
\<close>

definition is_space :: "char \<Rightarrow> bool" where
  "is_space c = (of_char c \<in> {9, 10, 11, 12, 13, 32, 160 :: nat})"

definition trim :: "string \<Rightarrow> string" where
  "trim s = rev (dropWhile is_space (rev (dropWhile is_space s)))"

text \<open>\<^verbatim>\<open>s.replace(/c/g, r)\<close> for a pattern that is one literal character.\<close>

definition replace_char :: "char \<Rightarrow> string \<Rightarrow> string \<Rightarrow> string" where
  "replace_char c r s = concat (map (\<lambda>x. if x = c then r else [x]) s)"

section \<open>Normalizer (utils.js)\<close>

text \<open>
  \<^verbatim>\<open>function formatThumbnailUrl(url) {
    if (!url || !url.includes('xhpingcdn.com')) return url;
    return url.replace(/\(/g, '%28').replace(/\)/g, '%29').replace(/,/g, '%2C');
}\<close>
\<close>

definition formatThumbnailUrl :: "string \<Rightarrow> string" where
  "formatThumbnailUrl url =
     (if url = [] \<or> \<not> str_includes url ''xhpingcdn.com'' then url
      else replace_char CHR '','' ''%2C''
             (replace_char CHR '')'' ''%29'' (replace_char CHR ''('' ''%28'' url)))"

text \<open>
  The regular expression \<^verbatim>\<open>/\/videos\/([^\/]+)/\<close> tried at the start of \<open>s\<close>: the literal
  \<^verbatim>\<open>/videos/\<close>, then the longest run of characters other than \<^verbatim>\<open>/\<close>, which must not be
  empty. The result is the capture group.
\<close>

definition videos_at :: "string \<Rightarrow> string option" where
  "videos_at s =
     (if prefix ''/videos/'' s \<and> takeWhile (\<lambda>c. c \<noteq> CHR ''/'') (drop 8 s) \<noteq> []
      then Some (takeWhile (\<lambda>c. c \<noteq> CHR ''/'') (drop 8 s)) else None)"

text \<open>\<^verbatim>\<open>fullUrl.match(...)\<close> without the global flag: the leftmost position that matches.\<close>

fun match_videos :: "string \<Rightarrow> string option" where
  "match_videos [] = None"
| "match_videos (c # cs) =
     (case videos_at (c # cs) of Some g \<Rightarrow> Some g | None \<Rightarrow> match_videos cs)"

text \<open>
  \<^verbatim>\<open>function extractVideoPath(fullUrl) {
    if (!fullUrl) return '';
    const match = fullUrl.match(/\/videos\/([^\/]+)/);
    return match ? `videos/${match[1]}` : '';
}\<close>
\<close>

definition extractVideoPath :: "string \<Rightarrow> string" where
  "extractVideoPath fullUrl =
     (if fullUrl = [] then []
      else case match_videos fullUrl of Some g \<Rightarrow> ''videos/'' @ g | None \<Rightarrow> [])"

text \<open>
  The escaping of section 4.1 of the specification, in its words: each of the three
  characters \<^verbatim>\<open>(\<close>, \<^verbatim>\<open>)\<close> and \<^verbatim>\<open>,\<close> becomes its percent escape, every other character
  stays.
\<close>

definition percent_escape3 :: "string \<Rightarrow> string" where
  "percent_escape3 u =
     concat (map (\<lambda>c. if c = CHR ''('' then ''%28'' else if c = CHR '')'' then ''%29''
                        else if c = CHR '','' then ''%2C'' else [c]) u)"

section \<open>JavaScript values\<close>

text \<open>
  Numbers are IEEE doubles in JavaScript. Every number this program meets is an integer
  (a JSON integer literal, a result of \<^verbatim>\<open>parseInt\<close>, a length, a hash) or NaN. The
  model keeps the integers exact, which the doubles do up to \<open>2^53 - 1\<close>. A run that
  reads a larger integer, or a number with a fraction or an exponent, leaves the model:
  it is marked \<open>Unmodelled\<close> (below), and no theorem speaks about it.
\<close>

datatype jsnum = NaN | Num int

text \<open>
  The values a candidate record is built from: what \<^verbatim>\<open>JSON.parse\<close> returns, and
  \<^verbatim>\<open>undefined\<close> for what is absent. An object is the list of its own properties.
  \<open>JFunction\<close> stands for a built-in method read off a prototype.
\<close>

datatype jsval =
    JUndefined
  | JNull
  | JBool bool
  | JNumber jsnum
  | JString string
  | JArray "jsval list"
  | JObject "(string \<times> jsval) list"
  | JFunction string

text \<open>
  What a call can throw. The last two are not exceptions of the program: \<open>Unmodelled\<close>
  marks a run that has left the model (see \<open>json_parse\<close>), \<open>NoReturn\<close> a call that
  does not return; no \<^verbatim>\<open>catch\<close> of the model catches them.
\<close>

datatype js_exn = TypeError | SyntaxError | Unmodelled | NoReturn

definition bindE :: "js_exn + 'a \<Rightarrow> ('a \<Rightarrow> js_exn + 'b) \<Rightarrow> js_exn + 'b" where
  "bindE m f = (case m of Inl e \<Rightarrow> Inl e | Inr x \<Rightarrow> f x)"

text \<open>ToBoolean: what \<^verbatim>\<open>v ? a : b\<close>, \<^verbatim>\<open>!v\<close>, \<^verbatim>\<open>v || d\<close> and \<^verbatim>\<open>v && w\<close> test.\<close>

fun truthy :: "jsval \<Rightarrow> bool" where
  "truthy JUndefined = False"
| "truthy JNull = False"
| "truthy (JBool b) = b"
| "truthy (JNumber NaN) = False"
| "truthy (JNumber (Num n)) = (n \<noteq> 0)"
| "truthy (JString s) = (s \<noteq> [])"
| "truthy (JArray xs) = True"
| "truthy (JObject kvs) = True"
| "truthy (JFunction f) = True"

text \<open>\<^verbatim>\<open>a || d\<close>\<close>

definition or_else :: "jsval \<Rightarrow> jsval \<Rightarrow> jsval" where
  "or_else a d = (if truthy a then a else d)"

definition nullish :: "jsval \<Rightarrow> bool" where
  "nullish v = (v = JUndefined \<or> v = JNull)"

text \<open>
  \<^verbatim>\<open>v.k\<close> for a value \<open>v\<close> other than \<^verbatim>\<open>undefined\<close> and \<^verbatim>\<open>null\<close> (on those the read
  throws a TypeError, which each caller checks first with \<open>nullish\<close>), and for the property
  names the source reads: \<^verbatim>\<open>pageURL\<close>, \<^verbatim>\<open>id\<close>, \<^verbatim>\<open>title\<close>, \<^verbatim>\<open>duration\<close>, \<^verbatim>\<open>created\<close>,
  \<^verbatim>\<open>videoType\<close>, \<^verbatim>\<open>thumbURL\<close>, \<^verbatim>\<open>previewThumbURL\<close>, \<^verbatim>\<open>imageURL\<close>, \<^verbatim>\<open>spriteURL\<close>,
  \<^verbatim>\<open>trailerURL\<close>, \<^verbatim>\<open>trailerFallbackUrl\<close>, \<^verbatim>\<open>views\<close>, \<^verbatim>\<open>landing\<close>, \<^verbatim>\<open>isThumbCustom\<close>,
  \<^verbatim>\<open>isAdminCustomThumb\<close>, \<^verbatim>\<open>userCountry\<close>, \<^verbatim>\<open>attributes\<close>, \<^verbatim>\<open>classes\<close>, \<^verbatim>\<open>type\<close>,
  \<^verbatim>\<open>name\<close>, \<^verbatim>\<open>logo\<close>, \<^verbatim>\<open>link\<close>, \<^verbatim>\<open>videoThumbProps\<close>. An object gives its own property;
  of these names the prototypes define only \<^verbatim>\<open>String.prototype.link\<close> and the \<^verbatim>\<open>name\<close>
  of a function.
\<close>

fun js_get :: "jsval \<Rightarrow> string \<Rightarrow> jsval" where
  "js_get (JObject kvs) k = (case map_of kvs k of Some v \<Rightarrow> v | None \<Rightarrow> JUndefined)"
| "js_get (JString s) k = (if k = ''link'' then JFunction ''link'' else JUndefined)"
| "js_get (JFunction f) k = (if k = ''name'' then JString f else JUndefined)"
| "js_get v k = JUndefined"

text \<open>Number::toString for an integer: decimal digits, a minus sign when negative.\<close>

definition digit_char :: "nat \<Rightarrow> char" where
  "digit_char d = ''0123456789'' ! d"

fun nat_digits :: "nat \<Rightarrow> string" where
  "nat_digits n = (if n < 10 then [digit_char n] else nat_digits (n div 10) @ [digit_char (n mod 10)])"

declare nat_digits.simps [simp del]

definition num_to_string :: "jsnum \<Rightarrow> string" where
  "num_to_string x =
     (case x of NaN \<Rightarrow> ''NaN''
      | Num n \<Rightarrow> if n < 0 then CHR ''-'' # nat_digits (nat (- n)) else nat_digits (nat n))"

text \<open>
  ToString. An array joins its elements with commas, \<^verbatim>\<open>undefined\<close> and \<^verbatim>\<open>null\<close>
  elements as the empty string. An object answers \<^verbatim>\<open>[object Object]\<close> through
  \<^verbatim>\<open>Object.prototype.toString\<close>; when it has an own property \<^verbatim>\<open>toString\<close> (from JSON: not
  callable) the conversion finds no method that returns a primitive and throws a TypeError.
\<close>

fun to_string :: "jsval \<Rightarrow> js_exn + string"
  and array_join :: "jsval list \<Rightarrow> js_exn + string" where
  "to_string JUndefined = Inr ''undefined''"
| "to_string JNull = Inr ''null''"
| "to_string (JBool b) = Inr (if b then ''true'' else ''false'')"
| "to_string (JNumber x) = Inr (num_to_string x)"
| "to_string (JString s) = Inr s"
| "to_string (JArray xs) = array_join xs"
| "to_string (JObject kvs) =
     (if map_of kvs ''toString'' = None then Inr ''[object Object]'' else Inl TypeError)"
| "to_string (JFunction f) = Inr (''function '' @ f @ ''() { [native code] }'')"
| "array_join [] = Inr []"
| "array_join (x # xs) =
     bindE (if nullish x then Inr [] else to_string x)
       (\<lambda>s. if xs = [] then Inr s else bindE (array_join xs) (\<lambda>r. Inr (s @ '','' @ r)))"

text \<open>
  \<^verbatim>\<open>parseInt(string)\<close> with no radix: ToString, skip leading white space, take a sign,
  take a \<^verbatim>\<open>0x\<close> or \<^verbatim>\<open>0X\<close> prefix (radix 16, else radix 10), read the longest run of digits
  of the radix; NaN when there is none. A value beyond \<open>2^53 - 1\<close> leaves the model.
\<close>

definition digit_val :: "nat \<Rightarrow> char \<Rightarrow> nat option" where
  "digit_val radix c =
     (let k = (of_char c :: nat) in
      if 48 \<le> k \<and> k \<le> 57 then Some (k - 48)
      else if radix = 16 \<and> 97 \<le> k \<and> k \<le> 102 then Some (k - 87)
      else if radix = 16 \<and> 65 \<le> k \<and> k \<le> 70 then Some (k - 55)
      else None)"

definition digits_value :: "nat \<Rightarrow> string \<Rightarrow> int" where
  "digits_value radix z =
     foldl (\<lambda>acc c. acc * int radix + int (the (digit_val radix c))) 0 z"

definition max_safe :: int where
  "max_safe = 9007199254740991"

definition parseInt_string :: "string \<Rightarrow> js_exn + jsnum" where
  "parseInt_string inputString =
     (let s = dropWhile is_space inputString;
          negative = (s \<noteq> [] \<and> hd s = CHR ''-'');
          s1 = (if s \<noteq> [] \<and> (hd s = CHR ''+'' \<or> hd s = CHR ''-'') then tl s else s);
          hex = (prefix ''0x'' s1 \<or> prefix ''0X'' s1);
          radix = (if hex then 16 else 10);
          s2 = (if hex then drop 2 s1 else s1);
          z = takeWhile (\<lambda>c. digit_val radix c \<noteq> None) s2
      in if z = [] then Inr NaN
         else if max_safe < digits_value radix z then Inl Unmodelled
         else if negative then Inr (Num (- digits_value radix z))
         else Inr (Num (digits_value radix z)))"

definition parseInt :: "jsval \<Rightarrow> js_exn + jsnum" where
  "parseInt v = bindE (to_string v) parseInt_string"

text \<open>\<^verbatim>\<open>x > 0\<close> and \<^verbatim>\<open>x >= 0\<close> on a number: false for NaN.\<close>

definition num_gt0 :: "jsnum \<Rightarrow> bool" where
  "num_gt0 x = (case x of NaN \<Rightarrow> False | Num n \<Rightarrow> 0 < n)"

definition num_ge0 :: "jsnum \<Rightarrow> bool" where
  "num_ge0 x = (case x of NaN \<Rightarrow> False | Num n \<Rightarrow> 0 \<le> n)"

section \<open>Record validator (cleanVideoData)\<close>

text \<open>The object literal \<^verbatim>\<open>cleaned\<close>; \<open>None\<close> is \<^verbatim>\<open>undefined\<close>.\<close>

record landing =
  landing_type :: jsval
  landing_id :: "jsnum option"
  landing_name :: jsval
  landing_logo :: jsval
  landing_link :: jsval

record video =
  id' :: "jsnum option"
  title :: string
  duration :: "jsnum option"
  created :: "jsnum option"
  videoType :: jsval
  pageURL :: string
  thumbURL :: string
  previewThumbURL :: string
  imageURL :: string
  spriteURL :: string
  trailerURL :: string
  trailerFallbackUrl :: string
  views :: jsnum
  landing :: "landing option"
  isThumbCustom :: jsval
  isAdminCustomThumb :: jsval
  userCountry :: jsval
  attributes :: jsval
  classes :: jsval

text \<open>
  \<^verbatim>\<open>v ? v.trim() : ''\<close>: a truthy value that is not a string has no method \<^verbatim>\<open>trim\<close>, and
  the call throws a TypeError.
\<close>

definition trimmed :: "jsval \<Rightarrow> js_exn + string" where
  "trimmed v =
     (if truthy v then (case v of JString s \<Rightarrow> Inr (trim s) | _ \<Rightarrow> Inl TypeError)
      else Inr [])"

text \<open>\<^verbatim>\<open>v ? parseInt(v) : undefined\<close>\<close>

definition parsed :: "jsval \<Rightarrow> js_exn + jsnum option" where
  "parsed v = (if truthy v then bindE (parseInt v) (\<lambda>n. Inr (Some n)) else Inr None)"

text \<open>
  \<^verbatim>\<open>video.landing ? { type: video.landing.type,
      id: video.landing.id ? parseInt(video.landing.id) : undefined,
      name: video.landing.name || '', logo: video.landing.logo || '',
      link: video.landing.link || '' } : undefined\<close>
\<close>

definition clean_landing :: "jsval \<Rightarrow> js_exn + landing option" where
  "clean_landing l =
     (if truthy l then
        bindE (parsed (js_get l ''id'')) (\<lambda>i.
          Inr (Some \<lparr> landing_type = js_get l ''type'', landing_id = i,
                      landing_name = or_else (js_get l ''name'') (JString []),
                      landing_logo = or_else (js_get l ''logo'') (JString []),
                      landing_link = or_else (js_get l ''link'') (JString []) \<rparr>))
      else Inr None)"

text \<open>The six validity tests of \<^verbatim>\<open>cleanVideoData\<close>, on the record it has built.\<close>

definition hasValidId :: "video \<Rightarrow> bool" where
  "hasValidId c = (id' c \<noteq> None \<and> num_gt0 (the (id' c)))"

definition hasValidTitle :: "video \<Rightarrow> bool" where
  "hasValidTitle c = (title c \<noteq> [] \<and> 0 < length (title c))"

definition hasValidDuration :: "video \<Rightarrow> bool" where
  "hasValidDuration c = (duration c \<noteq> None \<and> num_gt0 (the (duration c)))"

definition hasValidPageURL :: "video \<Rightarrow> bool" where
  "hasValidPageURL c = (pageURL c \<noteq> [] \<and> 0 < length (pageURL c))"

definition hasValidThumbURL :: "video \<Rightarrow> bool" where
  "hasValidThumbURL c = (thumbURL c \<noteq> [] \<and> 0 < length (thumbURL c))"

definition hasValidViews :: "video \<Rightarrow> bool" where
  "hasValidViews c = num_ge0 (views c)"

text \<open>
  \<^verbatim>\<open>cleanVideoData(video)\<close>. \<open>Inl TypeError\<close>: the call throws; \<open>Inr None\<close>: it returns
  \<^verbatim>\<open>null\<close>; \<open>Inr (Some c)\<close>: it returns the record \<open>c\<close>. The fields are computed in the
  order of the object literal. The diagnostic \<^verbatim>\<open>console.log\<close> is not modelled.
\<close>

definition cleanVideoData :: "jsval \<Rightarrow> js_exn + video option" where
  "cleanVideoData v =
     (if nullish v then Inl TypeError else
      bindE (trimmed (js_get v ''pageURL'')) (\<lambda>fullPageURL.
      if \<not> str_includes fullPageURL ''/videos/'' then Inr None else
      bindE (parsed (js_get v ''id'')) (\<lambda>c_id.
      bindE (trimmed (js_get v ''title'')) (\<lambda>c_title.
      bindE (parsed (js_get v ''duration'')) (\<lambda>c_duration.
      bindE (parsed (js_get v ''created'')) (\<lambda>c_created.
      bindE (trimmed (js_get v ''thumbURL'')) (\<lambda>c_thumb.
      bindE (trimmed (js_get v ''previewThumbURL'')) (\<lambda>c_preview.
      bindE (trimmed (js_get v ''imageURL'')) (\<lambda>c_image.
      bindE (trimmed (js_get v ''spriteURL'')) (\<lambda>c_sprite.
      bindE (trimmed (js_get v ''trailerURL'')) (\<lambda>c_trailer.
      bindE (trimmed (js_get v ''trailerFallbackUrl'')) (\<lambda>c_fallback.
      bindE (if truthy (js_get v ''views'') then parseInt (js_get v ''views'') else Inr (Num 0))
        (\<lambda>c_views.
      bindE (clean_landing (js_get v ''landing'')) (\<lambda>c_landing.
      let cleaned = \<lparr> id' = c_id, title = c_title, duration = c_duration,
            created = c_created,
            videoType = or_else (js_get v ''videoType'') (JString ''video''),
            pageURL = extractVideoPath fullPageURL,
            thumbURL = formatThumbnailUrl c_thumb,
            previewThumbURL = c_preview,
            imageURL = formatThumbnailUrl c_image,
            spriteURL = c_sprite, trailerURL = c_trailer,
            trailerFallbackUrl = c_fallback,
            views = c_views, landing = c_landing,
            isThumbCustom = or_else (js_get v ''isThumbCustom'') (JBool False),
            isAdminCustomThumb = or_else (js_get v ''isAdminCustomThumb'') (JBool False),
            userCountry = or_else (js_get v ''userCountry'') (JString []),
            attributes = or_else (js_get v ''attributes'') (JObject []),
            classes = or_else (js_get v ''classes'') (JString []) \<rparr>
      in if hasValidId cleaned \<and> hasValidTitle cleaned \<and> hasValidDuration cleaned
            \<and> hasValidPageURL cleaned \<and> hasValidThumbURL cleaned \<and> hasValidViews cleaned
         then Inr (Some cleaned) else Inr None))))))))))))))"

text \<open>
  The six required-field predicates of section 3 of the specification, in its words:
  \<open>id\<close> a positive integer, \<open>title\<close> a non-empty trimmed string, the duration a positive
  integer, the page path and the thumbnail URL non-empty, the view count a non-negative
  integer.
\<close>

definition valid_video :: "video \<Rightarrow> bool" where
  "valid_video c =
     ((case id' c of Some (Num n) \<Rightarrow> 0 < n | _ \<Rightarrow> False)
      \<and> title c \<noteq> [] \<and> trim (title c) = title c
      \<and> (case duration c of Some (Num n) \<Rightarrow> 0 < n | _ \<Rightarrow> False)
      \<and> pageURL c \<noteq> []
      \<and> thumbURL c \<noteq> []
      \<and> (case views c of Num n \<Rightarrow> 0 \<le> n | NaN \<Rightarrow> False))"




section \<open>Deduplication and completeness filter (search.js, details.js)\<close>

text \<open>Truthiness of a field that holds a number or \<^verbatim>\<open>undefined\<close>.\<close>

definition num_truthy :: "jsnum option \<Rightarrow> bool" where
  "num_truthy x = truthy (case x of None \<Rightarrow> JUndefined | Some n \<Rightarrow> JNumber n)"

text \<open>
  The guard of both loops: \<^verbatim>\<open>!video || !video.id || !video.title || !video.pageURL\<close>.
  The elements are records built by \<^verbatim>\<open>cleanVideoData\<close>, objects, so \<^verbatim>\<open>!video\<close> is false.
\<close>

definition skip_invalid :: "video \<Rightarrow> bool" where
  "skip_invalid v = (\<not> num_truthy (id' v) \<or> title v = [] \<or> pageURL v = [])"

text \<open>The template literal \<^verbatim>\<open>`${video.id}-${video.title}-${video.pageURL}`\<close>.\<close>

definition uniqueKey :: "video \<Rightarrow> string" where
  "uniqueKey v =
     (case id' v of None \<Rightarrow> ''undefined'' | Some n \<Rightarrow> num_to_string n)
       @ ''-'' @ title v @ ''-'' @ pageURL v"

text \<open>
  The related-videos loop of details.js. The state is the set \<^verbatim>\<open>seenKeys\<close> and the array
  \<^verbatim>\<open>uniqueRelatedVideos\<close>; \<^verbatim>\<open>forEach\<close> runs the body on each element in order.
\<close>

definition related_step :: "video \<Rightarrow> string set \<times> video list \<Rightarrow> string set \<times> video list" where
  "related_step v st =
     (case st of (seenKeys, uniqueRelatedVideos) \<Rightarrow>
        if skip_invalid v then st
        else if uniqueKey v \<in> seenKeys then st
        else (insert (uniqueKey v) seenKeys, uniqueRelatedVideos @ [v]))"

definition dedupe_related :: "video list \<Rightarrow> video list" where
  "dedupe_related relatedVideos = snd (fold related_step relatedVideos ({}, []))"

text \<open>
  The loop of search.js, with its three sets \<^verbatim>\<open>seenIds\<close>, \<^verbatim>\<open>seenTitles\<close>, \<^verbatim>\<open>seenUrls\<close>
  and the array \<^verbatim>\<open>uniqueVideos\<close> (\<open>uniqueList\<close>). A \<^verbatim>\<open>Set\<close> compares numbers and strings
  by value.
\<close>

record seen =
  seenIds :: "jsnum option set"
  seenTitles :: "string set"
  seenUrls :: "string set"
  uniqueList :: "video list"

definition search_step :: "video \<Rightarrow> seen \<Rightarrow> seen" where
  "search_step v st =
     (if skip_invalid v then st
      else if id' v \<in> seenIds st \<or> title v \<in> seenTitles st \<or> pageURL v \<in> seenUrls st then st
      else \<lparr> seenIds = insert (id' v) (seenIds st),
             seenTitles = insert (title v) (seenTitles st),
             seenUrls = insert (pageURL v) (seenUrls st),
             uniqueList = uniqueList st @ [v] \<rparr>)"

definition seen0 :: seen where
  "seen0 = \<lparr> seenIds = {}, seenTitles = {}, seenUrls = {}, uniqueList = [] \<rparr>"

definition dedupe_search :: "video list \<Rightarrow> video list" where
  "dedupe_search results = uniqueList (fold search_step results seen0)"

text \<open>
  The filter after either loop:
  \<^verbatim>\<open>video && video.id && video.title && video.duration && video.pageURL &&
  video.pageURL.includes('videos/') && video.thumbURL && video.views !== undefined\<close>.
  The field \<^verbatim>\<open>views\<close> of a cleaned record always holds a number, so the last test is true.
\<close>

definition is_complete :: "video \<Rightarrow> bool" where
  "is_complete v =
     (num_truthy (id' v) \<and> title v \<noteq> [] \<and> num_truthy (duration v) \<and> pageURL v \<noteq> []
      \<and> str_includes (pageURL v) ''videos/'' \<and> thumbURL v \<noteq> [])"

text \<open>The composite key of section 4.4 of the specification: the triple itself.\<close>

definition key_triple :: "video \<Rightarrow> jsnum option \<times> string \<times> string" where
  "key_triple v = (id' v, title v, pageURL v)"

text \<open>
  The shape \<^verbatim>\<open>cleanVideoData\<close> gives the three key fields of a record it returns: a
  positive integer, a non-empty title, and a path \<^verbatim>\<open>videos/<segment>\<close> whose segment has
  no slash.
\<close>

definition cleaned_key :: "video \<Rightarrow> bool" where
  "cleaned_key v =
     ((case id' v of Some (Num n) \<Rightarrow> 0 < n | _ \<Rightarrow> False)
      \<and> title v \<noteq> []
      \<and> prefix ''videos/'' (pageURL v) \<and> CHR ''/'' \<notin> set (drop 7 (pageURL v)))"

section \<open>Regular expressions\<close>

text \<open>
  Every regular expression of the modelled source is a sequence of character classes,
  each taken once, or repeated greedily (\<^verbatim>\<open>*\<close>, \<^verbatim>\<open>+\<close>) or lazily (\<^verbatim>\<open>*?\<close>), with
  capture groups that are not nested. A pattern is a list of such atoms; the matcher is
  the backtracking matcher of ECMAScript on them: a greedy repetition first tries one
  more character, a lazy one first tries to go on with the rest of the pattern.
\<close>

datatype cc =
    Ch char              \<comment> \<open>a literal character\<close>
  | OneOf "char list"    \<comment> \<open>\<^verbatim>\<open>[abc]\<close>\<close>
  | NoneOf "char list"   \<comment> \<open>\<^verbatim>\<open>[^abc]\<close>\<close>
  | Digit                \<comment> \<open>\<^verbatim>\<open>\d\<close>\<close>
  | Space                \<comment> \<open>\<^verbatim>\<open>\s\<close>\<close>
  | IdStart              \<comment> \<open>\<^verbatim>\<open>[a-zA-Z_]\<close>\<close>
  | IdChar               \<comment> \<open>\<^verbatim>\<open>[a-zA-Z0-9_]\<close>\<close>
  | AnyChar              \<comment> \<open>\<^verbatim>\<open>[\s\S]\<close>, and \<^verbatim>\<open>.\<close> under the flag \<^verbatim>\<open>s\<close>\<close>

definition is_digit :: "char \<Rightarrow> bool" where
  "is_digit c = (48 \<le> (of_char c :: nat) \<and> (of_char c :: nat) \<le> 57)"

definition is_letter :: "char \<Rightarrow> bool" where
  "is_letter c = ((65 \<le> (of_char c :: nat) \<and> (of_char c :: nat) \<le> 90)
                  \<or> (97 \<le> (of_char c :: nat) \<and> (of_char c :: nat) \<le> 122))"

fun in_cc :: "cc \<Rightarrow> char \<Rightarrow> bool" where
  "in_cc (Ch a) c = (c = a)"
| "in_cc (OneOf as) c = (c \<in> set as)"
| "in_cc (NoneOf as) c = (c \<notin> set as)"
| "in_cc Digit c = is_digit c"
| "in_cc Space c = is_space c"
| "in_cc IdStart c = (is_letter c \<or> c = CHR ''_'')"
| "in_cc IdChar c = (is_letter c \<or> is_digit c \<or> c = CHR ''_'')"
| "in_cc AnyChar c = True"

datatype atom =
    One cc       \<comment> \<open>the class, once\<close>
  | Star cc      \<comment> \<open>greedy \<^verbatim>\<open>*\<close>\<close>
  | Lazy cc      \<comment> \<open>lazy \<^verbatim>\<open>*?\<close>\<close>
  | Open         \<comment> \<open>\<^verbatim>\<open>(\<close>\<close>
  | Close        \<comment> \<open>\<^verbatim>\<open>)\<close>\<close>

text \<open>A literal string, and \<^verbatim>\<open>c+\<close>.\<close>

definition lit :: "string \<Rightarrow> atom list" where
  "lit s = map (\<lambda>c. One (Ch c)) s"

definition plus :: "cc \<Rightarrow> atom list" where
  "plus c = [One c, Star c]"

text \<open>
  The match of a pattern at the start of \<open>s\<close>: the texts of the capture groups in
  order, and the input left after the match. \<open>opens\<close> holds the input as it was at each
  group that is open, \<open>caps\<close> the groups closed so far, last first.
\<close>

fun rx_match :: "atom list \<Rightarrow> string \<Rightarrow> string list \<Rightarrow> string list
    \<Rightarrow> (string list \<times> string) option" where
  "rx_match [] s opens caps = Some (rev caps, s)"
| "rx_match (One c # r) s opens caps =
     (case s of [] \<Rightarrow> None
      | x # xs \<Rightarrow> if in_cc c x then rx_match r xs opens caps else None)"
| "rx_match (Star c # r) s opens caps =
     (case s of [] \<Rightarrow> rx_match r s opens caps
      | x # xs \<Rightarrow>
          if in_cc c x then
            (case rx_match (Star c # r) xs opens caps of
               Some m \<Rightarrow> Some m
             | None \<Rightarrow> rx_match r s opens caps)
          else rx_match r s opens caps)"
| "rx_match (Lazy c # r) s opens caps =
     (case rx_match r s opens caps of
        Some m \<Rightarrow> Some m
      | None \<Rightarrow>
          (case s of [] \<Rightarrow> None
           | x # xs \<Rightarrow> if in_cc c x then rx_match (Lazy c # r) xs opens caps else None))"
| "rx_match (Open # r) s opens caps = rx_match r s (s # opens) caps"
| "rx_match (Close # r) s opens caps =
     (case opens of [] \<Rightarrow> rx_match r s opens caps
      | b # bs \<Rightarrow> rx_match r s bs (take (length b - length s) b # caps))"

text \<open>
  A match found in a text: the matched text, the capture groups, and the input after the
  match.
\<close>

record rx_found =
  whole :: string
  groups :: "string list"
  after :: string

definition rx_at :: "atom list \<Rightarrow> string \<Rightarrow> rx_found option" where
  "rx_at r s =
     (case rx_match r s [] [] of None \<Rightarrow> None
      | Some m \<Rightarrow> Some \<lparr> whole = take (length s - length (snd m)) s,
                          groups = fst m, after = snd m \<rparr>)"

text \<open>The leftmost match: \<^verbatim>\<open>str.match(re)\<close> and \<^verbatim>\<open>re.exec(str)\<close> from a position.\<close>

fun rx_search :: "atom list \<Rightarrow> string \<Rightarrow> rx_found option" where
  "rx_search r [] = rx_at r []"
| "rx_search r (c # cs) =
     (case rx_at r (c # cs) of Some m \<Rightarrow> Some m | None \<Rightarrow> rx_search r cs)"

text \<open>
  The loop \<^verbatim>\<open>while ((match = re.exec(str)) !== null)\<close> for a regular expression with the
  flag \<^verbatim>\<open>g\<close>: each search starts where the last match ended. After an empty match the
  next search would start at the same place and the loop would not end: \<open>None\<close>.
  \<^verbatim>\<open>str.match(re)\<close> with the flag \<^verbatim>\<open>g\<close> collects the same matches.
\<close>

function exec_all :: "atom list \<Rightarrow> string \<Rightarrow> rx_found list option" where
  "exec_all r s =
     (case rx_search r s of None \<Rightarrow> Some []
      | Some m \<Rightarrow>
          if length (after m) < length s
          then map_option (\<lambda>ms. m # ms) (exec_all r (after m))
          else None)"
  by pat_completeness auto
termination
  by (relation "measure (\<lambda>(r, s). length s)") auto

declare exec_all.simps [simp del]

text \<open>
  \<^verbatim>\<open>str.replace(re, f)\<close> with the flag \<^verbatim>\<open>g\<close>: each match is replaced by \<open>f\<close> of its
  groups, the text between matches is copied. After an empty match the next character
  is copied and the search goes on behind it.
\<close>

function replace_all :: "atom list \<Rightarrow> (string list \<Rightarrow> string) \<Rightarrow> string \<Rightarrow> string" where
  "replace_all r f s =
     (case rx_at r s of
        Some m \<Rightarrow>
          if length (after m) < length s then f (groups m) @ replace_all r f (after m)
          else (case s of [] \<Rightarrow> f (groups m) | c # cs \<Rightarrow> f (groups m) @ c # replace_all r f cs)
      | None \<Rightarrow> (case s of [] \<Rightarrow> [] | c # cs \<Rightarrow> c # replace_all r f cs))"
  by pat_completeness auto
termination
  by (relation "measure (\<lambda>(r, f, s). length s)") auto

declare replace_all.simps [simp del]

text \<open>
  The three repairs of an embedded array:
  \<^verbatim>\<open>.replace(/,\s*]/g, ']')\<close>, \<^verbatim>\<open>.replace(/,\s*}/g, '}')\<close> and
  \<^verbatim>\<open>.replace(/([{,])\s*([a-zA-Z_][a-zA-Z0-9_]*):/g, '$1"$2":')\<close>.
\<close>

definition strip_comma_bracket :: "string \<Rightarrow> string" where
  "strip_comma_bracket = replace_all (lit '','' @ [Star Space] @ lit '']'') (\<lambda>g. '']'')"

definition strip_comma_brace :: "string \<Rightarrow> string" where
  "strip_comma_brace = replace_all (lit '','' @ [Star Space] @ lit ''}'') (\<lambda>g. ''}'')"

definition quote_keys :: "string \<Rightarrow> string" where
  "quote_keys =
     replace_all
       ([Open, One (OneOf ''{,''), Close, Star Space, Open, One IdStart, Star IdChar, Close]
          @ lit '':'')
       (\<lambda>g. g ! 0 @ [CHR 0x22] @ g ! 1 @ [CHR 0x22] @ '':'')"

section \<open>JSON.parse\<close>

text \<open>
  \<^verbatim>\<open>JSON.parse(text)\<close> as a machine that reads the text one character at a time, with a
  stack of the arrays and objects that are open. White space is TAB, LF, CR and space.
  A text that is not JSON throws a SyntaxError. A number with a fraction or an exponent,
  an integer beyond \<open>2^53 - 1\<close> and an escape \<^verbatim>\<open>\uXXXX\<close> beyond code unit 255 are
  outside the model of numbers and strings: for a text that is JSON and contains one, the
  result is \<open>Unmodelled\<close>, which is not an outcome of the program but the mark of a run
  the model does not follow.
\<close>

datatype frame =
    ArrF "jsval list"                     \<comment> \<open>the elements read so far, last first\<close>
  | ObjF "(string \<times> jsval) list" string   \<comment> \<open>the members read so far, the current key\<close>

datatype mode =
    WantValue bool       \<comment> \<open>a value must start; after \<^verbatim>\<open>[\<close> the array may also close\<close>
  | WantKey bool         \<comment> \<open>a key must start; after \<^verbatim>\<open>{\<close> the object may also close\<close>
  | WantColon string
  | Got jsval            \<comment> \<open>a value is complete\<close>
  | InStr string bool    \<comment> \<open>in a string (the characters read, last first; is it a key)\<close>
  | InEsc string bool
  | InHex string bool "nat list"
  | Minus
  | Zero
  | IntDigits bool int   \<comment> \<open>negative, the value of the digits read\<close>
  | Dot
  | FracDigits
  | Exp
  | ExpSign
  | ExpDigits
  | InLit string jsval   \<comment> \<open>the rest of \<^verbatim>\<open>true\<close>, \<^verbatim>\<open>false\<close> or \<^verbatim>\<open>null\<close>\<close>
  | Bad

text \<open>The state: the mode, the stack, and whether the text has left the model.\<close>

type_synonym pstate = "mode \<times> frame list \<times> bool"

definition is_json_ws :: "char \<Rightarrow> bool" where
  "is_json_ws c = (of_char c \<in> {9, 10, 13, 32 :: nat})"

definition digit_of :: "char \<Rightarrow> int" where
  "digit_of c = int (of_char c) - 48"

text \<open>A member is defined on the object; a second definition of a key replaces the value.\<close>

fun put_member :: "string \<Rightarrow> jsval \<Rightarrow> (string \<times> jsval) list \<Rightarrow> (string \<times> jsval) list" where
  "put_member k v [] = [(k, v)]"
| "put_member k v (m # ms) = (if fst m = k then (k, v) # ms else m # put_member k v ms)"

definition begin_value :: "char \<Rightarrow> frame list \<Rightarrow> bool \<Rightarrow> pstate" where
  "begin_value c st b =
     (if c = CHR ''{'' then (WantKey True, ObjF [] [] # st, b)
      else if c = CHR ''['' then (WantValue True, ArrF [] # st, b)
      else if c = CHR 0x22 then (InStr [] False, st, b)
      else if c = CHR ''-'' then (Minus, st, b)
      else if c = CHR ''0'' then (Zero, st, b)
      else if is_digit c then (IntDigits False (digit_of c), st, b)
      else if c = CHR ''t'' then (InLit ''rue'' (JBool True), st, b)
      else if c = CHR ''f'' then (InLit ''alse'' (JBool False), st, b)
      else if c = CHR ''n'' then (InLit ''ull'' JNull, st, b)
      else (Bad, st, b))"

definition after_value :: "jsval \<Rightarrow> char \<Rightarrow> frame list \<Rightarrow> bool \<Rightarrow> pstate" where
  "after_value v c st b =
     (if is_json_ws c then (Got v, st, b)
      else if c = CHR '','' then
        (case st of
           ArrF es # st' \<Rightarrow> (WantValue False, ArrF (v # es) # st', b)
         | ObjF ms k # st' \<Rightarrow> (WantKey False, ObjF (put_member k v ms) [] # st', b)
         | [] \<Rightarrow> (Bad, st, b))
      else if c = CHR '']'' then
        (case st of
           ArrF es # st' \<Rightarrow> (Got (JArray (rev (v # es))), st', b)
         | _ \<Rightarrow> (Bad, st, b))
      else if c = CHR ''}'' then
        (case st of
           ObjF ms k # st' \<Rightarrow> (Got (JObject (put_member k v ms)), st', b)
         | _ \<Rightarrow> (Bad, st, b))
      else (Bad, st, b))"

definition hex_val :: "char \<Rightarrow> nat option" where
  "hex_val c = digit_val 16 c"

definition escape_char :: "char \<Rightarrow> char option" where
  "escape_char c =
     (if c = CHR 0x22 then Some (CHR 0x22)
      else if c = CHR 0x5C then Some (CHR 0x5C)
      else if c = CHR ''/'' then Some (CHR ''/'')
      else if c = CHR ''b'' then Some (CHR 0x08)
      else if c = CHR ''f'' then Some (CHR 0x0C)
      else if c = CHR ''n'' then Some (CHR 0x0A)
      else if c = CHR ''r'' then Some (CHR 0x0D)
      else if c = CHR ''t'' then Some (CHR 0x09)
      else None)"

fun json_step :: "pstate \<Rightarrow> char \<Rightarrow> pstate" where
  "json_step (WantValue may_close, st, b) c =
     (if is_json_ws c then (WantValue may_close, st, b)
      else if may_close \<and> c = CHR '']'' then
        (case st of ArrF es # st' \<Rightarrow> (Got (JArray []), st', b) | _ \<Rightarrow> (Bad, st, b))
      else begin_value c st b)"
| "json_step (WantKey may_close, st, b) c =
     (if is_json_ws c then (WantKey may_close, st, b)
      else if may_close \<and> c = CHR ''}'' then
        (case st of ObjF ms k # st' \<Rightarrow> (Got (JObject []), st', b) | _ \<Rightarrow> (Bad, st, b))
      else if c = CHR 0x22 then (InStr [] True, st, b)
      else (Bad, st, b))"
| "json_step (WantColon k, st, b) c =
     (if is_json_ws c then (WantColon k, st, b)
      else if c = CHR '':'' then
        (case st of ObjF ms k' # st' \<Rightarrow> (WantValue False, ObjF ms k # st', b)
         | _ \<Rightarrow> (Bad, st, b))
      else (Bad, st, b))"
| "json_step (Got v, st, b) c = after_value v c st b"
| "json_step (InStr acc is_key, st, b) c =
     (if c = CHR 0x22 then
        (if is_key then (WantColon (rev acc), st, b) else (Got (JString (rev acc)), st, b))
      else if c = CHR 0x5C then (InEsc acc is_key, st, b)
      else if (of_char c :: nat) < 32 then (Bad, st, b)
      else (InStr (c # acc) is_key, st, b))"
| "json_step (InEsc acc is_key, st, b) c =
     (if c = CHR ''u'' then (InHex acc is_key [], st, b)
      else (case escape_char c of
              Some e \<Rightarrow> (InStr (e # acc) is_key, st, b)
            | None \<Rightarrow> (Bad, st, b)))"
| "json_step (InHex acc is_key ds, st, b) c =
     (case hex_val c of
        None \<Rightarrow> (Bad, st, b)
      | Some d \<Rightarrow>
          if length ds < 3 then (InHex acc is_key (ds @ [d]), st, b)
          else (let n = foldl (\<lambda>a x. a * 16 + x) 0 (ds @ [d])
                in if n < 256 then (InStr (char_of n # acc) is_key, st, b)
                   else (InStr (CHR ''?'' # acc) is_key, st, True)))"
| "json_step (Minus, st, b) c =
     (if c = CHR ''0'' then (Zero, st, b)
      else if is_digit c then (IntDigits True (digit_of c), st, b)
      else (Bad, st, b))"
| "json_step (Zero, st, b) c =
     (if c = CHR ''.'' then (Dot, st, True)
      else if c = CHR ''e'' \<or> c = CHR ''E'' then (Exp, st, True)
      else after_value (JNumber (Num 0)) c st b)"
| "json_step (IntDigits neg n, st, b) c =
     (if is_digit c then
        (IntDigits neg (n * 10 + digit_of c), st, b \<or> max_safe < n * 10 + digit_of c)
      else if c = CHR ''.'' then (Dot, st, True)
      else if c = CHR ''e'' \<or> c = CHR ''E'' then (Exp, st, True)
      else after_value (JNumber (Num (if neg then - n else n))) c st b)"
| "json_step (Dot, st, b) c = (if is_digit c then (FracDigits, st, b) else (Bad, st, b))"
| "json_step (FracDigits, st, b) c =
     (if is_digit c then (FracDigits, st, b)
      else if c = CHR ''e'' \<or> c = CHR ''E'' then (Exp, st, b)
      else after_value (JNumber NaN) c st b)"
| "json_step (Exp, st, b) c =
     (if c = CHR ''+'' \<or> c = CHR ''-'' then (ExpSign, st, b)
      else if is_digit c then (ExpDigits, st, b)
      else (Bad, st, b))"
| "json_step (ExpSign, st, b) c = (if is_digit c then (ExpDigits, st, b) else (Bad, st, b))"
| "json_step (ExpDigits, st, b) c =
     (if is_digit c then (ExpDigits, st, b) else after_value (JNumber NaN) c st b)"
| "json_step (InLit rest v, st, b) c =
     (case rest of
        [] \<Rightarrow> after_value v c st b
      | x # xs \<Rightarrow> if c = x then (if xs = [] then (Got v, st, b) else (InLit xs v, st, b))
                  else (Bad, st, b))"
| "json_step (Bad, st, b) c = (Bad, st, b)"

text \<open>The end of the text: one complete value and nothing open.\<close>

fun json_finish :: "pstate \<Rightarrow> js_exn + jsval" where
  "json_finish (m, st, b) =
     (if st \<noteq> [] then Inl SyntaxError
      else case (case m of
             Got v \<Rightarrow> Some v
           | Zero \<Rightarrow> Some (JNumber (Num 0))
           | IntDigits neg n \<Rightarrow> Some (JNumber (Num (if neg then - n else n)))
           | FracDigits \<Rightarrow> Some (JNumber NaN)
           | ExpDigits \<Rightarrow> Some (JNumber NaN)
           | _ \<Rightarrow> None) of
        None \<Rightarrow> Inl SyntaxError
      | Some v \<Rightarrow> if b then Inl Unmodelled else Inr v)"

definition json_parse :: "string \<Rightarrow> js_exn + jsval" where
  "json_parse text = json_finish (foldl json_step (WantValue False, [], False) text)"

section \<open>Extraction pipeline (details.js, search.js)\<close>

text \<open>
  \<^verbatim>\<open>try { body } catch (e) { handler }\<close>: the handler runs when the body throws. A run
  that has left the model, or that does not return, stays so.
\<close>

definition catchE :: "js_exn + 'a \<Rightarrow> js_exn + 'a \<Rightarrow> js_exn + 'a" where
  "catchE body handler =
     (case body of Inl TypeError \<Rightarrow> handler | Inl SyntaxError \<Rightarrow> handler | _ \<Rightarrow> body)"

text \<open>\<^verbatim>\<open>xs.map(f)\<close> for an \<open>f\<close> that can throw: left to right, the first throw ends it.\<close>

fun mapE :: "('a \<Rightarrow> js_exn + 'b) \<Rightarrow> 'a list \<Rightarrow> js_exn + 'b list" where
  "mapE f [] = Inr []"
| "mapE f (x # xs) = bindE (f x) (\<lambda>y. bindE (mapE f xs) (\<lambda>ys. Inr (y # ys)))"

text \<open>\<^verbatim>\<open>videos.map(cleanVideoData).filter(v => v !== null)\<close>\<close>

definition clean_all :: "jsval list \<Rightarrow> js_exn + video list" where
  "clean_all videos = bindE (mapE cleanVideoData videos) (\<lambda>rs. Inr (List.map_filter (\<lambda>r. r) rs))"

text \<open>\<^verbatim>\<open>video && video.id && video.title && video.pageURL\<close>\<close>

definition has_key_fields :: "jsval \<Rightarrow> bool" where
  "has_key_fields v =
     (truthy v \<and> truthy (js_get v ''id'') \<and> truthy (js_get v ''title'')
      \<and> truthy (js_get v ''pageURL''))"

text \<open>
  The regular expression of the manual fallback of \<^verbatim>\<open>parseVideoArray\<close>:
  \<^verbatim>\<open>/"id":\s*(\d+)[^}]*?"title":\s*"([^"]*)"[^}]*?"pageURL":\s*"([^"]*)"[^}]*?
  "thumbURL":\s*"([^"]*)"[^}]*?"duration":\s*(\d+)[^}]*?"views":\s*(\d+)/g\<close>,
  built from its parts: a key with a number, a key with a string.
\<close>

definition key_number :: "string \<Rightarrow> atom list" where
  "key_number k = lit ([CHR 0x22] @ k @ [CHR 0x22] @ '':'') @ [Star Space, Open] @ plus Digit @ [Close]"

definition key_text :: "string \<Rightarrow> atom list" where
  "key_text k =
     lit ([CHR 0x22] @ k @ [CHR 0x22] @ '':'') @ [Star Space] @ lit [CHR 0x22]
       @ [Open, Star (NoneOf [CHR 0x22]), Close] @ lit [CHR 0x22]"

definition gap :: "atom list" where
  "gap = [Lazy (NoneOf ''}'')]"

definition videoRegex :: "atom list" where
  "videoRegex =
     key_number ''id'' @ gap @ key_text ''title'' @ gap @ key_text ''pageURL'' @ gap
       @ key_text ''thumbURL'' @ gap @ key_number ''duration'' @ gap @ key_number ''views''"

text \<open>
  The object built from a match of \<open>videoRegex\<close>, kept when all its six fields are
  truthy (a \<^verbatim>\<open>views\<close> of 0 is not).
\<close>

definition regex_video :: "string list \<Rightarrow> js_exn + jsval list" where
  "regex_video g =
     bindE (parseInt_string (g ! 0)) (\<lambda>v_id.
     bindE (parseInt_string (g ! 4)) (\<lambda>v_duration.
     bindE (parseInt_string (g ! 5)) (\<lambda>v_views.
       let video = JObject
            [(''id'', JNumber v_id), (''title'', JString (g ! 1)),
             (''pageURL'', JString (g ! 2)), (''thumbURL'', JString (g ! 3)),
             (''duration'', JNumber v_duration), (''views'', JNumber v_views)]
       in if truthy (js_get video ''id'') \<and> truthy (js_get video ''title'')
             \<and> truthy (js_get video ''pageURL'') \<and> truthy (js_get video ''thumbURL'')
             \<and> truthy (js_get video ''duration'') \<and> truthy (js_get video ''views'')
          then Inr [video] else Inr [])))"

text \<open>
  The bracket-counting fallback: the state of the loop over the characters of
  \<^verbatim>\<open>videosArrayStr\<close>. \<open>objectStart\<close> is \<open>None\<close> for \<^verbatim>\<open>-1\<close>.
\<close>

record scan =
  bracketCount :: int
  objectStart :: "nat option"
  inString :: bool
  escaped :: bool
  videoObjects :: "jsval list"
  off_model :: bool

text \<open>
  A complete top-level object \<^verbatim>\<open>objStr\<close>: trim, quote the keys, \<^verbatim>\<open>JSON.parse\<close>, keep the
  object when it has id, title and page URL; a throw is caught and the object is skipped.
\<close>

definition scan_object :: "string \<Rightarrow> js_exn + jsval list" where
  "scan_object objStr =
     catchE
       (bindE (json_parse (quote_keys (trim objStr))) (\<lambda>videoObj.
          if nullish videoObj then Inl TypeError
          else if truthy (js_get videoObj ''id'') \<and> truthy (js_get videoObj ''title'')
                  \<and> truthy (js_get videoObj ''pageURL'')
               then Inr [videoObj] else Inr []))
       (Inr [])"

definition scan_step :: "string \<Rightarrow> scan \<Rightarrow> nat \<times> char \<Rightarrow> scan" where
  "scan_step str st ic =
     (case ic of (i, char) \<Rightarrow>
      if escaped st then st\<lparr>escaped := False\<rparr>
      else if char = CHR 0x5C then st\<lparr>escaped := True\<rparr>
      else
        let st1 = (if char = CHR 0x22 then st\<lparr>inString := \<not> inString st\<rparr> else st) in
        if inString st1 then st1
        else
          let st2 = (if char = CHR ''{'' then
                       st1\<lparr>objectStart := (if bracketCount st1 = 0 then Some i else objectStart st1),
                           bracketCount := bracketCount st1 + 1\<rparr>
                     else st1) in
          if char = CHR ''}'' then
            (let st3 = st2\<lparr>bracketCount := bracketCount st2 - 1\<rparr> in
             if bracketCount st3 = 0 \<and> objectStart st3 \<noteq> None then
               (case scan_object (take (i + 1 - the (objectStart st3)) (drop (the (objectStart st3)) str)) of
                  Inr vs \<Rightarrow> st3\<lparr>videoObjects := videoObjects st3 @ vs, objectStart := None\<rparr>
                | Inl e \<Rightarrow> st3\<lparr>off_model := True, objectStart := None\<rparr>)
             else st3)
          else st2)"

definition bracket_scan :: "string \<Rightarrow> js_exn + jsval list" where
  "bracket_scan str =
     (let st = foldl (scan_step str)
                 \<lparr> bracketCount = 0, objectStart = None, inString = False, escaped = False,
                   videoObjects = [], off_model = False \<rparr>
                 (zip [0 ..< length str] str)
      in if off_model st then Inl Unmodelled else Inr (videoObjects st))"

text \<open>
  \<^verbatim>\<open>parseVideoArray(videosArrayStr)\<close>: first the whole text as JSON, after the three
  repairs; when that throws (or gives no array), the manual parse: the regular expression
  on the original text and, when that finds nothing, the bracket count. The outer
  \<^verbatim>\<open>catch\<close> returns the empty array.
\<close>

definition manual_parse :: "string \<Rightarrow> js_exn + jsval list" where
  "manual_parse videosArrayStr =
     (case exec_all videoRegex videosArrayStr of
        None \<Rightarrow> Inl NoReturn
      | Some ms \<Rightarrow>
          bindE (mapE (\<lambda>m. catchE (regex_video (groups m)) (Inr [])) ms) (\<lambda>found.
            case concat found of
              [] \<Rightarrow> bracket_scan videosArrayStr
            | v # vs \<Rightarrow> Inr (v # vs)))"

definition parseVideoArray :: "string \<Rightarrow> js_exn + jsval list" where
  "parseVideoArray videosArrayStr =
     catchE
       (case json_parse (quote_keys (strip_comma_brace (strip_comma_bracket (trim videosArrayStr)))) of
          Inr videosArray \<Rightarrow>
            (case videosArray of
               JArray vs \<Rightarrow> Inr (filter has_key_fields vs)
             | _ \<Rightarrow> manual_parse videosArrayStr)
        | Inl jsonErr \<Rightarrow>
            (case jsonErr of
               Unmodelled \<Rightarrow> Inl Unmodelled
             | NoReturn \<Rightarrow> Inl NoReturn
             | _ \<Rightarrow> manual_parse videosArrayStr))
       (Inr [])"

text \<open>
  What the HTML library (cheerio) gives for a page of the details endpoint: the contents
  of its \<^verbatim>\<open>script\<close> elements in document order, and the candidates the selector loop of
  method 4 pushes (those with title, page URL and thumbnail). The library is not modelled;
  both are inputs, with the raw HTML.
\<close>

record details_page =
  html :: string
  scripts :: "string list"
  related_cards :: "jsval list"

text \<open>
  The three regular expressions that locate the embedded array:
  \<^verbatim>\<open>/"relatedVideosComponent":\s*\{[^}]*"videoTabInitialData":\s*\{[^}]*
  "videoListProps":\s*\{[^}]*"videoThumbProps":\s*(\[[\s\S]*?\])\s*\}/\<close>, the same from
  \<^verbatim>\<open>"videoTabInitialData"\<close> on, and \<^verbatim>\<open>/"videoThumbProps":\s*(\[[\s\S]*?\])\s*\}/\<close>.
\<close>

definition key_open :: "string \<Rightarrow> atom list" where
  "key_open k =
     lit ([CHR 0x22] @ k @ [CHR 0x22] @ '':'') @ [Star Space] @ lit ''{'' @ [Star (NoneOf ''}'')]"

definition thumbProps_rx :: "atom list" where
  "thumbProps_rx =
     lit ([CHR 0x22] @ ''videoThumbProps'' @ [CHR 0x22] @ '':'') @ [Star Space, Open] @ lit ''[''
       @ [Lazy AnyChar] @ lit '']'' @ [Close, Star Space] @ lit ''}''"

definition tabData_rx :: "atom list" where
  "tabData_rx = key_open ''videoTabInitialData'' @ key_open ''videoListProps'' @ thumbProps_rx"

definition component_rx :: "atom list" where
  "component_rx = key_open ''relatedVideosComponent'' @ tabData_rx"

text \<open>
  The body of one \<^verbatim>\<open>$('script').each\<close> callback: when the content contains the marker
  and the regular expression matches, the objects of \<^verbatim>\<open>parseVideoArray\<close> on group 1 are
  pushed to \<^verbatim>\<open>videos\<close>.
\<close>

definition script_finds :: "string \<Rightarrow> atom list \<Rightarrow> string \<Rightarrow> js_exn + jsval list" where
  "script_finds marker rx content =
     (if content \<noteq> [] \<and> str_includes content ([CHR 0x22] @ marker @ [CHR 0x22]) then
        catchE
          (case rx_search rx content of
             None \<Rightarrow> Inr []
           | Some dataMatch \<Rightarrow> parseVideoArray (groups dataMatch ! 0))
          (Inr [])
      else Inr [])"

text \<open>One strategy over all scripts: \<^verbatim>\<open>videos.push(...videoObjects)\<close> for each.\<close>

definition strategy :: "string \<Rightarrow> atom list \<Rightarrow> string list \<Rightarrow> js_exn + jsval list" where
  "strategy marker rx contents =
     bindE (mapE (script_finds marker rx) contents) (\<lambda>found. Inr (concat found))"

text \<open>
  The string hash of the id fallback:
  \<^verbatim>\<open>Math.abs(str.split('').reduce((a, b) => { a = ((a << 5) - a) + b.charCodeAt(0);
  return a & a; }, 0))\<close>, in 32-bit arithmetic.
\<close>

definition hash32 :: "string \<Rightarrow> 32 word" where
  "hash32 str = foldl (\<lambda>a b. (push_bit 5 a - a) + of_nat (of_char b)) 0 str"

definition abs_hash :: "string \<Rightarrow> int" where
  "abs_hash str = \<bar>sint (hash32 str)\<bar>"

text \<open>
  Method 5: the two patterns of \<^verbatim>\<open>jsonPatterns\<close> over the whole HTML, and the object
  built from a match. \<^verbatim>\<open>match[k]\<close> is \<^verbatim>\<open>undefined\<close> beyond the groups of the pattern.
\<close>

definition jsonPattern1 :: "atom list" where
  "jsonPattern1 =
     key_number ''id'' @ gap @ key_text ''title'' @ gap @ key_text ''pageURL'' @ gap
       @ key_text ''thumbURL'' @ gap @ key_number ''duration''"

definition jsonPattern2 :: "atom list" where
  "jsonPattern2 =
     key_text ''title'' @ gap @ key_text ''pageURL'' @ gap @ key_text ''thumbURL'' @ gap
       @ key_number ''duration''"

definition match_group :: "string list \<Rightarrow> nat \<Rightarrow> jsval" where
  "match_group g k = (if 1 \<le> k \<and> k \<le> length g then JString (g ! (k - 1)) else JUndefined)"

definition pattern_video :: "string list \<Rightarrow> js_exn + jsval list" where
  "pattern_video g =
     (let m1 = truthy (match_group g 1) in
      bindE (if m1 then parseInt (match_group g 1)
             else Inr (Num (case match_group g 2 of JString s \<Rightarrow> abs_hash s | _ \<Rightarrow> 0)))
        (\<lambda>vid.
      bindE (parseInt (if m1 then match_group g 5 else match_group g 4)) (\<lambda>dur.
        let v_title = (if m1 then match_group g 2 else match_group g 1);
            v_pageURL = (if m1 then match_group g 3 else match_group g 2);
            v_thumbURL = (if m1 then match_group g 4 else match_group g 3);
            video = JObject [(''id'', JNumber vid), (''title'', v_title), (''pageURL'', v_pageURL),
                             (''thumbURL'', v_thumbURL), (''duration'', JNumber dur)]
        in if truthy v_title \<and> truthy v_pageURL \<and> truthy v_thumbURL
              \<and> (case v_pageURL of JString p \<Rightarrow> str_includes p ''/videos/'' | _ \<Rightarrow> False)
           then Inr [video] else Inr [])))"

definition pattern_scan :: "atom list \<Rightarrow> string \<Rightarrow> js_exn + jsval list" where
  "pattern_scan pattern h =
     (case exec_all pattern h of
        None \<Rightarrow> Inl NoReturn
      | Some ms \<Rightarrow>
          bindE (mapE (\<lambda>m. catchE (pattern_video (groups m)) (Inr [])) ms)
            (\<lambda>found. Inr (concat found)))"

text \<open>
  A later method of \<^verbatim>\<open>extractRelatedVideos\<close> runs only \<^verbatim>\<open>if (videos.length === 0)\<close>,
  and pushes its finds to \<^verbatim>\<open>videos\<close>.
\<close>

definition when_empty ::
  "jsval list \<Rightarrow> ('a \<Rightarrow> js_exn + jsval list) \<Rightarrow> 'a \<Rightarrow> js_exn + jsval list" where
  "when_empty videos method input =
     (if length videos = 0 then bindE (method input) (\<lambda>found. Inr (videos @ found))
      else Inr videos)"

definition pattern_scans :: "string \<Rightarrow> js_exn + jsval list" where
  "pattern_scans h =
     bindE (pattern_scan jsonPattern1 h) (\<lambda>p1.
     bindE (pattern_scan jsonPattern2 h) (\<lambda>p2. Inr (p1 @ p2)))"

text \<open>
  Methods 1, 2 and 3 over the contents of the scripts, method 4 (the candidates of the
  selector loop) and method 5 over the raw HTML.
\<close>

definition method1 :: "string list \<Rightarrow> js_exn + jsval list" where
  "method1 = strategy ''relatedVideosComponent'' component_rx"

definition method2 :: "string list \<Rightarrow> js_exn + jsval list" where
  "method2 = strategy ''videoTabInitialData'' tabData_rx"

definition method3 :: "string list \<Rightarrow> js_exn + jsval list" where
  "method3 = strategy ''videoThumbProps'' thumbProps_rx"

definition method4 :: "jsval list \<Rightarrow> js_exn + jsval list" where
  "method4 = Inr"

definition method5 :: "string \<Rightarrow> js_exn + jsval list" where
  "method5 = pattern_scans"

definition related_candidates :: "details_page \<Rightarrow> js_exn + jsval list" where
  "related_candidates page =
     bindE (method1 (scripts page)) (\<lambda>videos1.
     bindE (when_empty videos1 method2 (scripts page)) (\<lambda>videos2.
     bindE (when_empty videos2 method3 (scripts page)) (\<lambda>videos3.
     bindE (when_empty videos3 method4 (related_cards page)) (\<lambda>videos4.
     when_empty videos4 method5 (html page)))))"

text \<open>
  \<^verbatim>\<open>extractRelatedVideos(html)\<close>: the candidates, cleaned, without the \<^verbatim>\<open>null\<close>s; the
  outer \<^verbatim>\<open>catch\<close> returns the empty array.
\<close>

definition extractRelatedVideos :: "details_page \<Rightarrow> js_exn + video list" where
  "extractRelatedVideos page =
     catchE (bindE (related_candidates page) clean_all) (Inr [])"

section \<open>Search extraction and the two endpoints\<close>

text \<open>
  What the HTML library gives for a page of the search endpoint: the candidates the
  selector loop of the last fallback hands to \<^verbatim>\<open>cleanVideoData\<close> (one per element whose
  link contains \<^verbatim>\<open>/videos/\<close>, with its fallback id), and the result of
  \<^verbatim>\<open>extractPaginationInfo\<close>. Both are inputs, with the raw HTML.
\<close>

record pagination =
  currentPage :: int
  totalPages :: int
  hasNext :: bool
  hasPrevious :: bool

record search_page =
  search_html :: string
  search_cards :: "jsval list"
  paginationInfo :: pagination

text \<open>
  \<^verbatim>\<open>/"searchResult":\s*({.*?"videoThumbProps":\s*\[.*?\]}),/s\<close> and
  \<^verbatim>\<open>/<script[^>]*>([\s\S]*?)<\/script>/\<close>.
\<close>

definition searchResult_rx :: "atom list" where
  "searchResult_rx =
     lit ([CHR 0x22] @ ''searchResult'' @ [CHR 0x22] @ '':'') @ [Star Space, Open] @ lit ''{''
       @ [Lazy AnyChar] @ lit ([CHR 0x22] @ ''videoThumbProps'' @ [CHR 0x22] @ '':'')
       @ [Star Space] @ lit ''['' @ [Lazy AnyChar] @ lit '']}'' @ [Close] @ lit '',''"

definition script_rx :: "atom list" where
  "script_rx =
     lit ''<script'' @ [Star (NoneOf ''>'')] @ lit ''>'' @ [Open, Lazy AnyChar, Close]
       @ lit ''</script>''"

text \<open>\<^verbatim>\<open>str.replace(re, f)\<close> without the flag \<^verbatim>\<open>g\<close>: the leftmost match only.\<close>

definition replace_first :: "atom list \<Rightarrow> (string list \<Rightarrow> string) \<Rightarrow> string \<Rightarrow> string" where
  "replace_first r f s =
     (case rx_search r s of None \<Rightarrow> s
      | Some m \<Rightarrow> take (length s - length (whole m) - length (after m)) s @ f (groups m) @ after m)"

text \<open>
  The first strategy of \<^verbatim>\<open>extractSearchResults\<close>: \<open>Some\<close> of the videos when it returns
  from the function, \<open>None\<close> when the function goes on to the next strategy (no match,
  no array, or a throw, which the inner \<^verbatim>\<open>catch\<close> swallows).
\<close>

definition search_json :: "string \<Rightarrow> js_exn + video list option" where
  "search_json h =
     (case rx_search searchResult_rx h of
        None \<Rightarrow> Inr None
      | Some jsonMatch \<Rightarrow>
          catchE
            (bindE (json_parse (quote_keys (strip_comma_bracket (strip_comma_brace (groups jsonMatch ! 0)))))
               (\<lambda>data.
                  if nullish data then Inl TypeError
                  else (case js_get data ''videoThumbProps'' of
                          JArray videoThumbProps \<Rightarrow>
                            bindE (clean_all videoThumbProps) (\<lambda>validVideos. Inr (Some validVideos))
                        | _ \<Rightarrow> Inr None)))
            (Inr None))"

text \<open>The second strategy, on one script tag; the loop over the tags stops at the first return.\<close>

definition search_script :: "string \<Rightarrow> js_exn + video list option" where
  "search_script scriptTag =
     (let content = replace_first script_rx (\<lambda>g. g ! 0) scriptTag in
      if str_includes content ([CHR 0x22] @ ''videoThumbProps'' @ [CHR 0x22]) then
        catchE
          (case rx_search thumbProps_rx content of
             None \<Rightarrow> Inr None
           | Some arrayMatch \<Rightarrow>
               bindE (json_parse (quote_keys (strip_comma_brace (strip_comma_bracket (groups arrayMatch ! 0)))))
                 (\<lambda>videosArray.
                    case videosArray of
                      JArray vs \<Rightarrow> bindE (clean_all vs) (\<lambda>validVideos. Inr (Some validVideos))
                    | _ \<Rightarrow> Inr None))
          (Inr None)
      else Inr None)"

fun search_scripts :: "string list \<Rightarrow> js_exn + video list option" where
  "search_scripts [] = Inr None"
| "search_scripts (scriptTag # tags) =
     bindE (search_script scriptTag)
       (\<lambda>r. case r of Some vs \<Rightarrow> Inr (Some vs) | None \<Rightarrow> search_scripts tags)"

text \<open>
  The last fallback: \<^verbatim>\<open>const cleaned = cleanVideoData(video); if (cleaned) videos.push(cleaned)\<close>
  for each card.
\<close>

definition search_dom :: "jsval list \<Rightarrow> js_exn + video list" where
  "search_dom cards = clean_all cards"

text \<open>\<^verbatim>\<open>extractSearchResults(html)\<close>; the outer \<^verbatim>\<open>catch\<close> returns the empty array.\<close>

definition extractSearchResults :: "search_page \<Rightarrow> js_exn + video list" where
  "extractSearchResults page =
     catchE
       (bindE (search_json (search_html page)) (\<lambda>r1.
          case r1 of
            Some vs \<Rightarrow> Inr vs
          | None \<Rightarrow>
              (case exec_all script_rx (search_html page) of
                 None \<Rightarrow> Inl NoReturn
               | Some scriptTags \<Rightarrow>
                   bindE (search_scripts (map whole scriptTags)) (\<lambda>r2.
                     case r2 of
                       Some vs \<Rightarrow> Inr vs
                     | None \<Rightarrow> search_dom (search_cards page)))))
       (Inr [])"

text \<open>
  The upstream request \<^verbatim>\<open>axios.get(url, ...)\<close> together with the HTML library: the page
  for a URL, or the error it throws, with \<^verbatim>\<open>err.response?.status\<close> and \<^verbatim>\<open>err.message\<close>.
\<close>

datatype 'p fetched = Fetched 'p | FetchFailed "nat option" string

text \<open>
  A response: the status and the JSON body. The counts of \<^verbatim>\<open>meta\<close> are kept under their
  JSON keys.
\<close>

datatype search_response =
    SearchOk "video list" pagination int "(string \<times> int) list"
      \<comment> \<open>\<^verbatim>\<open>searchResult\<close>, \<^verbatim>\<open>pagination\<close>, \<^verbatim>\<open>requestedPage\<close>, \<^verbatim>\<open>meta\<close>\<close>
  | SearchError nat string string         \<comment> \<open>status, \<^verbatim>\<open>error\<close>, \<^verbatim>\<open>message\<close>\<close>

text \<open>The part of the search handler after the extraction.\<close>

definition search_body :: "video list \<Rightarrow> pagination \<Rightarrow> int \<Rightarrow> search_response" where
  "search_body results info pageNum =
     (let uniqueVideos = dedupe_search results;
          completeResults = filter is_complete uniqueVideos
      in SearchOk completeResults info pageNum
           [(''totalFound'', int (length results)),
            (''uniqueVideos'', int (length uniqueVideos)),
            (''completeVideos'', int (length completeResults)),
            (''duplicatesRemoved'', int (length results) - int (length uniqueVideos)),
            (''filtered'', int (length uniqueVideos) - int (length completeResults))])"

text \<open>
  \<^verbatim>\<open>encodeURIComponent\<close> on code units below 256: letters, digits and
  \<^verbatim>\<open>- _ . ! ~ * ' ( )\<close> stay, every other character becomes the percent escapes of its
  UTF-8 bytes.
\<close>

definition hex_digit :: "nat \<Rightarrow> char" where
  "hex_digit d = ''0123456789ABCDEF'' ! d"

definition percent_byte :: "nat \<Rightarrow> string" where
  "percent_byte b = [CHR ''%'', hex_digit (b div 16), hex_digit (b mod 16)]"

definition encodeURIComponent :: "string \<Rightarrow> string" where
  "encodeURIComponent s =
     concat (map (\<lambda>c.
        if is_letter c \<or> is_digit c \<or> c \<in> set ''-_.!~*()'' \<or> c = CHR 0x27 then [c]
        else if (of_char c :: nat) < 128 then percent_byte (of_char c)
        else percent_byte (192 + of_char c div 64) @ percent_byte (128 + of_char c mod 64)) s)"

text \<open>
  The search handler: \<^verbatim>\<open>router.get('/:query/:page?', ...)\<close>. The result is the response
  and the list of the URLs requested upstream.
\<close>

definition search_url :: "string \<Rightarrow> int \<Rightarrow> string" where
  "search_url query pageNum =
     ''https://xhamster19.com/search/'' @ encodeURIComponent query
       @ (if 1 < pageNum then ''?page='' @ num_to_string (Num pageNum) else [])"

text \<open>
  \<^verbatim>\<open>const { query, page = 1 } = req.params; const pageNum = parseInt(page) || 1;\<close>
\<close>

definition page_number :: "string option \<Rightarrow> js_exn + int" where
  "page_number page =
     (case page of
        None \<Rightarrow> Inr 1
      | Some p \<Rightarrow>
          bindE (parseInt_string p)
            (\<lambda>x. case x of NaN \<Rightarrow> Inr 1 | Num n \<Rightarrow> Inr (if n = 0 then 1 else n)))"

definition search_route ::
  "(string \<Rightarrow> search_page fetched) \<Rightarrow> string \<Rightarrow> string option
     \<Rightarrow> (js_exn + search_response) \<times> string list" where
  "search_route fetch query page =
     (case page_number page of
        Inl e \<Rightarrow> (Inl e, [])
      | Inr pageNum \<Rightarrow>
          (case fetch (search_url query pageNum) of
             FetchFailed status message \<Rightarrow>
               Inr (SearchError 500 ''Failed to fetch search results'' message)
           | Fetched data \<Rightarrow>
               bindE (extractSearchResults data)
                 (\<lambda>results. Inr (search_body results (paginationInfo data) pageNum)),
           [search_url query pageNum]))"

text \<open>
  A page of the details endpoint as the handler sees it: the page of
  \<^verbatim>\<open>extractRelatedVideos\<close>, and the results of \<^verbatim>\<open>extractVideoDetails\<close> (\<open>None\<close> for
  \<^verbatim>\<open>null\<close>), \<^verbatim>\<open>extractMetadata\<close> and \<^verbatim>\<open>extractVideoStreamUrl\<close>, which are inputs.
\<close>

record details_data =
  related_page :: details_page
  videoDetails :: "jsval option"
  metadata :: jsval
  streamUrl :: jsval

datatype details_response =
    DetailsOk jsval jsval jsval "video list" "(string \<times> int) list"
      \<comment> \<open>\<^verbatim>\<open>video\<close>, \<^verbatim>\<open>metadata\<close>, \<^verbatim>\<open>streamUrl\<close>, \<^verbatim>\<open>relatedVideos\<close>, the counts of \<^verbatim>\<open>meta\<close>\<close>
  | DetailsError nat string "string option"   \<comment> \<open>status, \<^verbatim>\<open>error\<close>, \<^verbatim>\<open>message\<close>\<close>

definition details_body :: "details_data \<Rightarrow> jsval \<Rightarrow> video list \<Rightarrow> details_response" where
  "details_body data video relatedVideos =
     (let uniqueRelatedVideos = dedupe_related relatedVideos;
          completeRelatedVideos = filter is_complete uniqueRelatedVideos
      in DetailsOk video (metadata data) (streamUrl data) completeRelatedVideos
           [(''totalRelated'', int (length relatedVideos)),
            (''uniqueRelated'', int (length uniqueRelatedVideos)),
            (''completeRelated'', int (length completeRelatedVideos)),
            (''filteredRelated'', int (length uniqueRelatedVideos) - int (length completeRelatedVideos)),
            (''duplicatesRemoved'', int (length relatedVideos) - int (length uniqueRelatedVideos))])"

text \<open>
  The details handler: \<^verbatim>\<open>router.get('/:path(*)', ...)\<close>. The guard on the path comes
  before the request.
\<close>

definition details_route ::
  "(string \<Rightarrow> details_data fetched) \<Rightarrow> string \<Rightarrow> (js_exn + details_response) \<times> string list" where
  "details_route fetch path =
     (if \<not> prefix ''videos/'' path then
        (Inr (DetailsError 400 ''Invalid path. Must start with videos/'' None), [])
      else
        (let videoUrl = ''https://xhamster19.com/'' @ path in
         (case fetch videoUrl of
            FetchFailed status message \<Rightarrow>
              if status = Some 404 then Inr (DetailsError 404 ''Video not found'' None)
              else Inr (DetailsError 500 ''Failed to fetch video details'' (Some message))
          | Fetched data \<Rightarrow>
              (case videoDetails data of
                 None \<Rightarrow> Inr (DetailsError 404 ''Video details not found'' None)
               | Some video \<Rightarrow>
                   bindE (extractRelatedVideos (related_page data))
                     (\<lambda>relatedVideos. Inr (details_body data video relatedVideos))),
          [videoUrl])))"

text \<open>A count of \<^verbatim>\<open>meta\<close> by its key.\<close>

definition stat :: "(string \<times> int) list \<Rightarrow> string \<Rightarrow> int" where
  "stat m k = (case map_of m k of Some n \<Rightarrow> n | None \<Rightarrow> 0)"

section \<open>Sample data\<close>

text \<open>
  The candidate of the example of section 8 of the specification, as an object, and the
  record \<^verbatim>\<open>cleanVideoData\<close> returns for it.
\<close>

definition sample_candidate :: jsval where
  "sample_candidate = JObject
     [(''id'', JNumber (Num 1)), (''title'', JString ''A''),
      (''pageURL'', JString ''https://x/videos/a-1''),
      (''thumbURL'', JString ''https://cdn/x.jpg''),
      (''duration'', JNumber (Num 30)), (''views'', JNumber (Num 5))]"

definition sample_video :: video where
  "sample_video =
     \<lparr> id' = Some (Num 1), title = ''A'', duration = Some (Num 30), created = None,
       videoType = JString ''video'', pageURL = ''videos/a-1'',
       thumbURL = ''https://cdn/x.jpg'', previewThumbURL = [], imageURL = [],
       spriteURL = [], trailerURL = [], trailerFallbackUrl = [], views = Num 5,
       landing = None, isThumbCustom = JBool False, isAdminCustomThumb = JBool False,
       userCountry = JString [], attributes = JObject [], classes = JString [] \<rparr>"


text \<open>The embedded array of the example of section 8 of the specification.\<close>

definition sample_array_text :: string where
  "sample_array_text =
     ''[{id:1,title:\"A\",pageURL:\"https://x/videos/a-1\",thumbURL:\"https://cdn/x.jpg\",duration:30,views:5}]''"

text \<open>
  A details page with two scripts. The first holds the array of the sample candidate
  under \<^verbatim>\<open>relatedVideosComponent.videoTabInitialData.videoListProps\<close>, the second holds
  another candidate under a bare \<^verbatim>\<open>videoThumbProps\<close>.
\<close>

definition second_candidate :: jsval where
  "second_candidate = JObject
     [(''id'', JNumber (Num 2)), (''title'', JString ''B''),
      (''pageURL'', JString ''https://x/videos/b-2''),
      (''thumbURL'', JString ''https://cdn/y.jpg''),
      (''duration'', JNumber (Num 40)), (''views'', JNumber (Num 7))]"

definition component_script :: string where
  "component_script =
     ''window.initials={\"relatedVideosComponent\":{\"videoTabInitialData\":{\"videoListProps\":{\"videoThumbProps\":[{\"id\":1,\"title\":\"A\",\"pageURL\":\"https://x/videos/a-1\",\"thumbURL\":\"https://cdn/x.jpg\",\"duration\":30,\"views\":5}]}}}};''"

definition bare_script :: string where
  "bare_script =
     ''var more={\"videoThumbProps\":[{\"id\":2,\"title\":\"B\",\"pageURL\":\"https://x/videos/b-2\",\"thumbURL\":\"https://cdn/y.jpg\",\"duration\":40,\"views\":7}]};''"

definition two_script_page :: details_page where
  "two_script_page = \<lparr> html = [], scripts = [component_script, bare_script], related_cards = [] \<rparr>"

text \<open>A search page without embedded data, with one card; an upstream that serves it.\<close>

definition card_page :: search_page where
  "card_page =
     \<lparr> search_html = [], search_cards = [sample_candidate],
       paginationInfo = \<lparr> currentPage = 1, totalPages = 1, hasNext = False, hasPrevious = False \<rparr> \<rparr>"

definition card_details :: details_data where
  "card_details =
     \<lparr> related_page = \<lparr> html = [], scripts = [], related_cards = [sample_candidate] \<rparr>,
       videoDetails = Some (JObject []), metadata = JObject [], streamUrl = JNull \<rparr>"

section \<open>Verification\<close>

subsection \<open>Normalizer\<close>


lemma videos_at_Some_prefix: "videos_at s = Some g \<Longrightarrow> prefix ''/videos/'' s"
  by (simp add: videos_at_def split: if_splits)

lemma match_videos_None: "\<not> str_includes s ''/videos/'' \<Longrightarrow> match_videos s = None"
proof (induction s)
  case Nil
  then show ?case by simp
next
  case (Cons c cs)
  then have np: "\<not> prefix ''/videos/'' (c # cs)" and nt: "\<not> str_includes cs ''/videos/''"
    by auto
  from np have "videos_at (c # cs) = None"
    by (meson not_Some_eq videos_at_Some_prefix)
  with Cons.IH nt show ?case by simp
qed

lemma takeWhile_segment:
  assumes "CHR ''/'' \<notin> set seg" "rest = [] \<or> hd rest = CHR ''/''"
  shows "takeWhile (\<lambda>c. c \<noteq> CHR ''/'') (seg @ rest) = seg"
proof -
  have a: "takeWhile (\<lambda>c. c \<noteq> CHR ''/'') rest = []"
    using assms(2) by (cases rest) auto
  have "\<forall>x\<in>set seg. x \<noteq> CHR ''/''" using assms(1) by auto
  then have "takeWhile (\<lambda>c. c \<noteq> CHR ''/'') (seg @ rest) = seg @ takeWhile (\<lambda>c. c \<noteq> CHR ''/'') rest"
    by (simp add: takeWhile_append2)
  with a show ?thesis by simp
qed

lemma videos_at_here:
  assumes "seg \<noteq> []" "CHR ''/'' \<notin> set seg" "rest = [] \<or> hd rest = CHR ''/''"
  shows "videos_at (''/videos/'' @ seg @ rest) = Some seg"
  using assms takeWhile_segment [OF assms(2,3)] by (simp add: videos_at_def)

lemma prefix_in_front:
  assumes "prefix x (a @ b)" "length x \<le> length a"
  shows "prefix x a"
  using assms by (metis prefix_length_prefix prefixI)

lemma match_videos_first:
  assumes "seg \<noteq> []" "CHR ''/'' \<notin> set seg" "rest = [] \<or> hd rest = CHR ''/''"
  shows "\<not> str_includes (pre @ ''/videos'') ''/videos/'' \<Longrightarrow>
         match_videos (pre @ ''/videos/'' @ seg @ rest) = Some seg"
proof (induction pre)
  case Nil
  have "match_videos (''/videos/'' @ seg @ rest) = Some seg"
    using videos_at_here [OF assms] by simp
  then show ?case by simp
next
  case (Cons c p)
  from Cons.prems have np: "\<not> prefix ''/videos/'' ((c # p) @ ''/videos'')"
    and nt: "\<not> str_includes (p @ ''/videos'') ''/videos/''" by auto
  have "\<not> prefix ''/videos/'' ((c # p) @ ''/videos/'' @ seg @ rest)"
  proof
    assume "prefix ''/videos/'' ((c # p) @ ''/videos/'' @ seg @ rest)"
    then have "prefix ''/videos/'' (((c # p) @ ''/videos'') @ (''/'' @ seg @ rest))"
      by (simp only: append_assoc append_Cons append_Nil)
    then have "prefix ''/videos/'' ((c # p) @ ''/videos'')"
      by (rule prefix_in_front) simp
    with np show False by blast
  qed
  then have "videos_at ((c # p) @ ''/videos/'' @ seg @ rest) = None"
    by (meson not_Some_eq videos_at_Some_prefix)
  with Cons.IH [OF nt] show ?case by simp
qed

text \<open>
  Claim C2, as the code has it. \<^verbatim>\<open>extractVideoPath\<close> returns the empty string for an
  input without \<^verbatim>\<open>/videos/\<close>. For an input whose first \<^verbatim>\<open>/videos/\<close> is followed by a
  non-empty run of characters other than \<^verbatim>\<open>/\<close>, it returns \<^verbatim>\<open>videos/\<close> and that run: a
  later path is cut off, a query suffix is not, since the run ends only at a slash or at
  the end of the input. So \<^verbatim>\<open>https://host/videos/my-slug-1?ref=x\<close> gives
  \<^verbatim>\<open>videos/my-slug-1?ref=x\<close>.
\<close>

theorem extractVideoPath_first_segment:
  "(\<not> str_includes s ''/videos/'' \<longrightarrow> extractVideoPath s = [])
   \<and> (seg \<noteq> [] \<and> CHR ''/'' \<notin> set seg \<and> (rest = [] \<or> hd rest = CHR ''/'')
        \<and> \<not> str_includes (pre @ ''/videos'') ''/videos/''
      \<longrightarrow> extractVideoPath (pre @ ''/videos/'' @ seg @ rest) = ''videos/'' @ seg)
   \<and> extractVideoPath ''https://host/videos/my-slug-1?ref=x'' = ''videos/my-slug-1?ref=x''"
proof (intro conjI impI)
  assume "\<not> str_includes s ''/videos/''"
  then show "extractVideoPath s = []"
    by (simp add: extractVideoPath_def match_videos_None)
next
  assume a: "seg \<noteq> [] \<and> CHR ''/'' \<notin> set seg \<and> (rest = [] \<or> hd rest = CHR ''/'')
        \<and> \<not> str_includes (pre @ ''/videos'') ''/videos/''"
  then have "match_videos (pre @ ''/videos/'' @ seg @ rest) = Some seg"
    using match_videos_first by blast
  then show "extractVideoPath (pre @ ''/videos/'' @ seg @ rest) = ''videos/'' @ seg"
    by (simp add: extractVideoPath_def)
next
  show "extractVideoPath ''https://host/videos/my-slug-1?ref=x'' = ''videos/my-slug-1?ref=x''"
    by (simp add: extractVideoPath_def videos_at_def)
qed

theorem extractVideoPath_first_segment_witness:
  "extractVideoPath ''ftp://x'' = []
   \<and> extractVideoPath ''https://host/videos/my-slug-1/comments?ref=x'' = ''videos/my-slug-1''"
  using extractVideoPath_first_segment
    [of "''ftp://x''" "''my-slug-1''" "''/comments?ref=x''" "''https://host''"]
  by simp

text \<open>
  Claim C2 as stated fails on its own example: the query suffix stays in the result.
\<close>

theorem extractVideoPath_query_counterexample:
  "extractVideoPath ''https://host/videos/my-slug-1?ref=x'' \<noteq> ''videos/my-slug-1''"
  by (simp add: extractVideoPath_def videos_at_def)





lemma replace_char_append: "replace_char c r (a @ b) = replace_char c r a @ replace_char c r b"
  by (simp add: replace_char_def)

lemma replace_char_absent: "c \<notin> set s \<Longrightarrow> replace_char c r s = s"
  by (induction s) (auto simp: replace_char_def)

lemma replace3_escape:
  "replace_char CHR '','' ''%2C'' (replace_char CHR '')'' ''%29'' (replace_char CHR ''('' ''%28'' u))
     = percent_escape3 u"
proof (induction u)
  case Nil
  then show ?case by (simp add: replace_char_def percent_escape3_def)
next
  case (Cons c u)
  have step: "replace_char CHR ''('' ''%28'' (c # u)
       = (if c = CHR ''('' then ''%28'' else [c]) @ replace_char CHR ''('' ''%28'' u"
    by (simp add: replace_char_def)
  have tl: "percent_escape3 (c # u) = (if c = CHR ''('' then ''%28'' else if c = CHR '')'' then ''%29''
                        else if c = CHR '','' then ''%2C'' else [c]) @ percent_escape3 u"
    by (simp add: percent_escape3_def)
  show ?case
    unfolding step replace_char_append tl Cons.IH [symmetric]
    by (simp add: replace_char_def)
qed

lemma percent_escape3_clean:
  "CHR ''('' \<notin> set (percent_escape3 u) \<and> CHR '')'' \<notin> set (percent_escape3 u)
   \<and> CHR '','' \<notin> set (percent_escape3 u)"
  by (induction u) (auto simp: percent_escape3_def)

lemma percent_escape3_fixed:
  "CHR ''('' \<notin> set u \<Longrightarrow> CHR '')'' \<notin> set u \<Longrightarrow> CHR '','' \<notin> set u \<Longrightarrow> percent_escape3 u = u"
  by (induction u) (auto simp: percent_escape3_def)

lemma percent_escape3_idem: "percent_escape3 (percent_escape3 u) = percent_escape3 u"
  using percent_escape3_clean [of u] by (simp add: percent_escape3_fixed)

lemma formatThumbnailUrl_cases:
  "formatThumbnailUrl u = (if str_includes u ''xhpingcdn.com'' then percent_escape3 u else u)"
proof (cases "u = []")
  case True
  then show ?thesis by (simp add: formatThumbnailUrl_def percent_escape3_def)
next
  case False
  then show ?thesis by (simp add: formatThumbnailUrl_def replace3_escape)
qed

text \<open>
  Claim C6. \<^verbatim>\<open>formatThumbnailUrl\<close> is idempotent; it returns a URL that does not contain
  \<^verbatim>\<open>xhpingcdn.com\<close> unchanged; on a URL that contains it, exactly the characters \<^verbatim>\<open>(\<close>,
  \<^verbatim>\<open>)\<close> and \<^verbatim>\<open>,\<close> are replaced, by \<^verbatim>\<open>%28\<close>, \<^verbatim>\<open>%29\<close> and \<^verbatim>\<open>%2C\<close>.
\<close>

theorem formatThumbnailUrl_idempotent:
  "formatThumbnailUrl (formatThumbnailUrl u) = formatThumbnailUrl u
   \<and> (\<not> str_includes u ''xhpingcdn.com'' \<longrightarrow> formatThumbnailUrl u = u)
   \<and> (str_includes u ''xhpingcdn.com'' \<longrightarrow> formatThumbnailUrl u = percent_escape3 u)"
  by (simp add: formatThumbnailUrl_cases percent_escape3_idem)

theorem formatThumbnailUrl_idempotent_witness:
  "formatThumbnailUrl ''https://cdn/a(1),b.jpg'' = ''https://cdn/a(1),b.jpg''
   \<and> formatThumbnailUrl ''https://ic.xhpingcdn.com/a(1),b.jpg'' = ''https://ic.xhpingcdn.com/a%281%29%2Cb.jpg''"
  using formatThumbnailUrl_idempotent [of "''https://cdn/a(1),b.jpg''"]
    formatThumbnailUrl_idempotent [of "''https://ic.xhpingcdn.com/a(1),b.jpg''"]
  by (simp add: percent_escape3_def)

subsection \<open>Record validator\<close>

lemma bindE_Inr: "bindE m f = Inr y \<longleftrightarrow> (\<exists>x. m = Inr x \<and> f x = Inr y)"
  by (cases m) (auto simp: bindE_def)

lemma dropWhile_fixed: "xs = [] \<or> \<not> P (hd xs) \<Longrightarrow> dropWhile P xs = xs"
  by (cases xs) auto

lemma hd_dropWhile_not: "dropWhile P xs \<noteq> [] \<Longrightarrow> \<not> P (hd (dropWhile P xs))"
  by (metis hd_dropWhile)

lemma trim_idem: "trim (trim s) = trim s"
proof -
  define u where "u = dropWhile is_space s"
  define w where "w = dropWhile is_space (rev u)"
  have t: "trim s = rev w" by (simp add: trim_def u_def w_def)
  have w_ok: "w = [] \<or> \<not> is_space (hd w)"
    unfolding w_def using hd_dropWhile_not by blast
  have u_ok: "u = [] \<or> \<not> is_space (hd u)"
    unfolding u_def using hd_dropWhile_not by blast
  obtain z where z: "rev u = z @ w"
    unfolding w_def by (metis takeWhile_dropWhile_id)
  then have u_eq: "u = rev w @ rev z" by (metis rev_append rev_rev_ident)
  have front: "rev w = [] \<or> \<not> is_space (hd (rev w))"
  proof (cases "w = []")
    case True
    then show ?thesis by simp
  next
    case False
    then have "hd u = hd (rev w)" using u_eq by simp
    moreover have "u \<noteq> []" using u_eq False by simp
    ultimately show ?thesis using u_ok by simp
  qed
  have "dropWhile is_space (rev w) = rev w"
    using front by (rule dropWhile_fixed)
  moreover have "dropWhile is_space w = w"
    using w_ok by (rule dropWhile_fixed)
  ultimately have "trim (rev w) = rev w" by (simp add: trim_def)
  with t show ?thesis by simp
qed

lemma trim_Nil: "trim [] = []"
  by (simp add: trim_def)

lemma trimmed_Inr: "trimmed v = Inr s \<Longrightarrow> trim s = s"
  by (auto simp: trimmed_def trim_idem trim_Nil split: if_splits jsval.splits)

lemma extractVideoPath_prefix:
  "extractVideoPath s \<noteq> [] \<Longrightarrow> prefix ''videos/'' (extractVideoPath s)"
  by (auto simp: extractVideoPath_def split: if_splits option.splits)

lemma hasValidId_num: "hasValidId c \<Longrightarrow> \<exists>n. id' c = Some (Num n) \<and> 0 < n"
  by (cases "id' c") (auto simp: hasValidId_def num_gt0_def split: jsnum.splits)

lemma hasValidDuration_num: "hasValidDuration c \<Longrightarrow> \<exists>n. duration c = Some (Num n) \<and> 0 < n"
  by (cases "duration c") (auto simp: hasValidDuration_def num_gt0_def split: jsnum.splits)

lemma hasValidViews_num: "hasValidViews c \<Longrightarrow> \<exists>n. views c = Num n \<and> 0 \<le> n"
  by (auto simp: hasValidViews_def num_ge0_def split: jsnum.splits)

lemma gate_valid:
  assumes "hasValidId c" "hasValidTitle c" "hasValidDuration c" "hasValidPageURL c"
    "hasValidThumbURL c" "hasValidViews c" "trim (title c) = title c"
  shows "valid_video c"
proof -
  from hasValidId_num [OF assms(1)] obtain n where "id' c = Some (Num n)" "0 < n" by blast
  moreover from hasValidDuration_num [OF assms(3)] obtain d where "duration c = Some (Num d)" "0 < d" by blast
  moreover from hasValidViews_num [OF assms(6)] obtain w where "views c = Num w" "0 \<le> w" by blast
  ultimately show ?thesis
    using assms(2,4,5,7) by (simp add: valid_video_def hasValidTitle_def hasValidPageURL_def hasValidThumbURL_def)
qed

lemma cleanVideoData_Some:
  assumes "cleanVideoData x = Inr (Some c)"
  shows "hasValidId c \<and> hasValidTitle c \<and> hasValidDuration c \<and> hasValidPageURL c
    \<and> hasValidThumbURL c \<and> hasValidViews c \<and> trim (title c) = title c
    \<and> (\<exists>u. pageURL c = extractVideoPath u)"
  using assms
  by (auto simp: cleanVideoData_def bindE_Inr Let_def trimmed_Inr split: if_splits)

lemma parseInt_string_Inl: "parseInt_string s = Inl e \<Longrightarrow> e = Unmodelled"
  by (simp add: parseInt_string_def Let_def split: if_splits)

lemma bindE_Inl:
  assumes "bindE m f = Inl e"
  shows "m = Inl e \<or> (\<exists>x. m = Inr x \<and> f x = Inl e)"
  using assms by (cases m) (auto simp: bindE_def)


lemma sample_candidate_cleaned: "cleanVideoData sample_candidate = Inr (Some sample_video)"
  by code_simp

subsection \<open>Deduplication\<close>

lemma digit_char_in: "d < 10 \<Longrightarrow> digit_char d \<in> set ''0123456789''"
proof -
  assume "d < 10"
  then have "d \<in> {0,1,2,3,4,5,6,7,8,9}" by auto
  then show ?thesis by (auto simp: digit_char_def)
qed

lemma digit_val_digit_char: "d < 10 \<Longrightarrow> digit_val 10 (digit_char d) = Some d"
proof -
  assume "d < 10"
  then have "d \<in> {0,1,2,3,4,5,6,7,8,9}" by auto
  then show ?thesis by (auto simp: digit_char_def digit_val_def)
qed

lemma nat_digits_chars: "set (nat_digits n) \<subseteq> set ''0123456789''"
proof (induction n rule: nat_digits.induct)
  case (1 n)
  show ?case
  proof (cases "n < 10")
    case True
    then show ?thesis using digit_char_in [of n] by (subst nat_digits.simps) simp
  next
    case False
    have "n mod 10 < 10" by simp
    then have "digit_char (n mod 10) \<in> set ''0123456789''" by (rule digit_char_in)
    with False 1 show ?thesis by (subst nat_digits.simps) simp
  qed
qed

lemma digits_value_snoc:
  "digits_value r (z @ [c]) = digits_value r z * int r + int (the (digit_val r c))"
  by (simp add: digits_value_def)

lemma digits_value_nat_digits: "digits_value 10 (nat_digits n) = int n"
proof (induction n rule: nat_digits.induct)
  case (1 n)
  show ?case
  proof (cases "n < 10")
    case True
    then show ?thesis
      by (subst nat_digits.simps) (simp add: digits_value_def digit_val_digit_char)
  next
    case False
    have "digits_value 10 (nat_digits (n div 10) @ [digit_char (n mod 10)])
          = digits_value 10 (nat_digits (n div 10)) * 10 + int (n mod 10)"
      by (simp add: digits_value_snoc digit_val_digit_char)
    moreover have "int (n div 10) * 10 + int (n mod 10) = int n"
      by (simp add: zmod_int zdiv_int)
    ultimately show ?thesis using False 1 by (subst nat_digits.simps) simp
  qed
qed

lemma nat_digits_inj: "nat_digits a = nat_digits b \<Longrightarrow> a = b"
proof -
  assume "nat_digits a = nat_digits b"
  then have "digits_value 10 (nat_digits a) = digits_value 10 (nat_digits b)" by simp
  then show ?thesis by (simp add: digits_value_nat_digits)
qed

lemma takeWhile_upto: "c \<notin> set xs \<Longrightarrow> takeWhile (\<lambda>x. x \<noteq> c) (xs @ c # r) = xs"
  by (induction xs) auto

lemma split_at_first:
  assumes "c \<notin> set xs" "c \<notin> set ys" "xs @ c # r = ys @ c # r'"
  shows "xs = ys \<and> r = r'"
proof -
  have "takeWhile (\<lambda>x. x \<noteq> c) (xs @ c # r) = xs" using assms(1) by (rule takeWhile_upto)
  moreover have "takeWhile (\<lambda>x. x \<noteq> c) (ys @ c # r') = ys" using assms(2) by (rule takeWhile_upto)
  ultimately have "xs = ys" using assms(3) by simp
  with assms(3) show ?thesis by simp
qed

lemma split_at_last:
  assumes "c \<notin> set xs" "c \<notin> set ys" "r @ c # xs = r' @ c # ys"
  shows "xs = ys \<and> r = r'"
proof -
  from assms(3) have "rev (r @ c # xs) = rev (r' @ c # ys)" by simp
  then have "rev xs @ c # rev r = rev ys @ c # rev r'" by simp
  moreover have "c \<notin> set (rev xs)" "c \<notin> set (rev ys)" using assms(1,2) by simp_all
  ultimately have "rev xs = rev ys \<and> rev r = rev r'" by (rule split_at_first [rotated 2])
  then show ?thesis by simp
qed

lemma cleaned_key_shape:
  assumes "cleaned_key v"
  obtains n g where "id' v = Some (Num n)" "0 < n" "pageURL v = ''videos/'' @ g" "CHR ''/'' \<notin> set g"
proof -
  from assms obtain n where n: "id' v = Some (Num n)" "0 < n"
    by (auto simp: cleaned_key_def split: option.splits jsnum.splits)
  from assms have p: "prefix ''videos/'' (pageURL v)" and s: "CHR ''/'' \<notin> set (drop 7 (pageURL v))"
    by (simp_all add: cleaned_key_def)
  from p obtain g where g: "pageURL v = ''videos/'' @ g" by (auto simp: prefix_def)
  with s have "CHR ''/'' \<notin> set g" by simp
  with n g that show thesis by blast
qed

lemma uniqueKey_cleaned:
  assumes "id' v = Some (Num n)" "0 < n" "pageURL v = ''videos/'' @ g"
  shows "uniqueKey v = nat_digits (nat n) @ CHR ''-'' # (title v @ ''-videos'') @ CHR ''/'' # g"
  using assms by (simp add: uniqueKey_def num_to_string_def)

lemma uniqueKey_inj:
  assumes "cleaned_key v" "cleaned_key w" "uniqueKey v = uniqueKey w"
  shows "key_triple v = key_triple w"
proof -
  from assms(1) obtain n g where v: "id' v = Some (Num n)" "0 < n" "pageURL v = ''videos/'' @ g"
    and g: "CHR ''/'' \<notin> set g" by (rule cleaned_key_shape)
  from assms(2) obtain m h where w: "id' w = Some (Num m)" "0 < m" "pageURL w = ''videos/'' @ h"
    and h: "CHR ''/'' \<notin> set h" by (rule cleaned_key_shape)
  have nd: "CHR ''-'' \<notin> set (nat_digits k)" for k
    using nat_digits_chars [of k] by auto
  from assms(3) have eq: "nat_digits (nat n) @ CHR ''-'' # (title v @ ''-videos'') @ CHR ''/'' # g
      = nat_digits (nat m) @ CHR ''-'' # (title w @ ''-videos'') @ CHR ''/'' # h"
    using uniqueKey_cleaned [OF v] uniqueKey_cleaned [OF w] by simp
  from split_at_first [OF nd nd eq]
  have d: "nat_digits (nat n) = nat_digits (nat m)"
    and rest: "(title v @ ''-videos'') @ CHR ''/'' # g = (title w @ ''-videos'') @ CHR ''/'' # h"
    by simp_all
  from d have "nat n = nat m" by (rule nat_digits_inj)
  with v(2) w(2) have nm: "n = m" by simp
  from split_at_last [OF g h rest] have gh: "g = h" and t: "title v @ ''-videos'' = title w @ ''-videos''"
    by simp_all
  from t have "title v = title w" by simp
  with nm gh v w show ?thesis by (simp add: key_triple_def)
qed

lemma key_triple_uniqueKey: "key_triple v = key_triple w \<Longrightarrow> uniqueKey v = uniqueKey w"
  by (simp add: key_triple_def uniqueKey_def)

lemma related_step_pair:
  "related_step v (K, U) =
     (if skip_invalid v then (K, U) else if uniqueKey v \<in> K then (K, U)
      else (insert (uniqueKey v) K, U @ [v]))"
  by (simp add: related_step_def)

lemma related_fold_keys:
  "fst (fold related_step xs ({}, [])) = uniqueKey ` set (snd (fold related_step xs ({}, [])))"
proof (induction xs rule: rev_induct)
  case Nil
  then show ?case by simp
next
  case (snoc v xs)
  obtain K U where st: "fold related_step xs ({}, []) = (K, U)" by (cases "fold related_step xs ({}, [])")
  with snoc have "K = uniqueKey ` set U" by simp
  then show ?case by (auto simp: st related_step_pair)
qed

lemma dedupe_related_snoc:
  "dedupe_related (xs @ [v]) =
     dedupe_related xs @
       (if \<not> skip_invalid v \<and> uniqueKey v \<notin> uniqueKey ` set (dedupe_related xs) then [v] else [])"
proof -
  obtain K U where st: "fold related_step xs ({}, []) = (K, U)" by (cases "fold related_step xs ({}, [])")
  have "K = uniqueKey ` set U" using related_fold_keys [of xs] st by simp
  then show ?thesis by (auto simp: dedupe_related_def st related_step_pair)
qed

lemma dedupe_related_Nil: "dedupe_related [] = []"
  by (simp add: dedupe_related_def)

lemma dedupe_related_keys:
  "uniqueKey ` set (dedupe_related xs) = uniqueKey ` {v \<in> set xs. \<not> skip_invalid v}"
  by (induction xs rule: rev_induct) (auto simp: dedupe_related_snoc dedupe_related_Nil)

lemma dedupe_related_subseq: "subseq (dedupe_related xs) xs"
proof (induction xs rule: rev_induct)
  case Nil
  then show ?case by (simp add: dedupe_related_Nil)
next
  case (snoc v xs)
  then show ?case by (auto simp: dedupe_related_snoc intro: subseq_append' list_emb_append_mono)
qed

lemma dedupe_related_distinct: "distinct (map uniqueKey (dedupe_related xs))"
  by (induction xs rule: rev_induct) (auto simp: dedupe_related_snoc dedupe_related_Nil)

lemma dedupe_related_valid: "v \<in> set (dedupe_related xs) \<Longrightarrow> \<not> skip_invalid v"
  by (induction xs rule: rev_induct) (auto simp: dedupe_related_snoc dedupe_related_Nil split: if_splits)


lemma search_fold_sets:
  "seenIds (fold search_step xs seen0) = id' ` set (uniqueList (fold search_step xs seen0))
   \<and> seenTitles (fold search_step xs seen0) = title ` set (uniqueList (fold search_step xs seen0))
   \<and> seenUrls (fold search_step xs seen0) = pageURL ` set (uniqueList (fold search_step xs seen0))"
proof (induction xs rule: rev_induct)
  case Nil
  then show ?case by (simp add: seen0_def)
next
  case (snoc v xs)
  then show ?case by (auto simp: search_step_def)
qed

lemma dedupe_search_snoc:
  "dedupe_search (xs @ [v]) =
     dedupe_search xs @
       (if \<not> skip_invalid v \<and> (\<forall>w \<in> set (dedupe_search xs).
              id' w \<noteq> id' v \<and> title w \<noteq> title v \<and> pageURL w \<noteq> pageURL v) then [v] else [])"
proof -
  have ds: "dedupe_search ys = uniqueList (fold search_step ys seen0)" for ys
    by (simp add: dedupe_search_def)
  show ?thesis
    using search_fold_sets [of xs] unfolding ds
    by (auto simp: search_step_def image_iff)
qed

lemma dedupe_search_Nil: "dedupe_search [] = []"
  by (simp add: dedupe_search_def seen0_def)

lemma dedupe_search_subseq: "subseq (dedupe_search xs) xs"
proof (induction xs rule: rev_induct)
  case Nil
  then show ?case by (simp add: dedupe_search_Nil)
next
  case (snoc v xs)
  then show ?case by (auto simp: dedupe_search_snoc intro: subseq_append' list_emb_append_mono)
qed

lemma dedupe_search_distinct: "distinct (map id' (dedupe_search xs))"
  by (induction xs rule: rev_induct) (auto simp: dedupe_search_snoc dedupe_search_Nil)

lemma dedupe_search_valid: "v \<in> set (dedupe_search xs) \<Longrightarrow> \<not> skip_invalid v"
  by (induction xs rule: rev_induct) (auto simp: dedupe_search_snoc dedupe_search_Nil split: if_splits)


lemma distinct_map_coarser:
  assumes "distinct (map f xs)" "\<And>x y. g x = g y \<Longrightarrow> f x = f y"
  shows "distinct (map g xs)"
  using assms(1)
proof (induction xs)
  case Nil
  then show ?case by simp
next
  case (Cons a xs)
  then have "f a \<notin> f ` set xs" "distinct (map g xs)" by simp_all
  moreover have "g a \<notin> g ` set xs"
  proof
    assume "g a \<in> g ` set xs"
    then obtain b where b: "b \<in> set xs" "g a = g b" by auto
    have "f a = f b" using b(2) by (rule assms(2))
    moreover have "f b \<in> f ` set xs" using b(1) by (rule imageI)
    ultimately have "f a \<in> f ` set xs" by simp
    with \<open>f a \<notin> f ` set xs\<close> show False by blast
  qed
  ultimately show ?case by simp
qed

lemma cleaned_key_not_skipped: "cleaned_key v \<Longrightarrow> \<not> skip_invalid v"
proof -
  assume a: "cleaned_key v"
  then obtain n g where "id' v = Some (Num n)" "0 < n" "pageURL v = ''videos/'' @ g"
    by (rule cleaned_key_shape)
  moreover from a have "title v \<noteq> []" by (simp add: cleaned_key_def)
  ultimately show ?thesis by (simp add: skip_invalid_def num_truthy_def)
qed

lemma in_dedupe_related: "w \<in> set (dedupe_related xs) \<Longrightarrow> w \<in> set xs"
  by (induction xs rule: rev_induct)
    (auto simp: dedupe_related_snoc dedupe_related_Nil split: if_splits)


text \<open>
  Claim C7, as the code has it. After either loop no two records of the output share
  the triple of id, title and page path, and the output is a subsequence of the input
  in the input's order. In the related-videos loop a record is kept exactly when it
  passes the guard and no earlier record that passes the guard has the same key string:
  the first occurrence of each key is kept. In the search loop a record is kept exactly
  when it passes the guard and no record kept before it has the same id, the same title
  or the same page path, so the first occurrence of a triple can be dropped.
\<close>

theorem dedupe_unique_subseq:
  "subseq (dedupe_related xs) xs \<and> distinct (map key_triple (dedupe_related xs))
   \<and> subseq (dedupe_search xs) xs \<and> distinct (map key_triple (dedupe_search xs))
   \<and> dedupe_related (xs @ [v]) =
       dedupe_related xs @
         (if \<not> skip_invalid v \<and> (\<forall>w \<in> set xs. \<not> skip_invalid w \<longrightarrow> uniqueKey w \<noteq> uniqueKey v)
          then [v] else [])
   \<and> dedupe_search (xs @ [v]) =
       dedupe_search xs @
         (if \<not> skip_invalid v \<and> (\<forall>w \<in> set (dedupe_search xs).
                id' w \<noteq> id' v \<and> title w \<noteq> title v \<and> pageURL w \<noteq> pageURL v)
          then [v] else [])"
proof (intro conjI)
  show "subseq (dedupe_related xs) xs" by (rule dedupe_related_subseq)
  show "subseq (dedupe_search xs) xs" by (rule dedupe_search_subseq)
  show "distinct (map key_triple (dedupe_related xs))"
    using dedupe_related_distinct key_triple_uniqueKey by (rule distinct_map_coarser)
  show "distinct (map key_triple (dedupe_search xs))"
    using dedupe_search_distinct by (rule distinct_map_coarser) (simp add: key_triple_def)
  have "uniqueKey v \<notin> uniqueKey ` set (dedupe_related xs)
        \<longleftrightarrow> (\<forall>w \<in> set xs. \<not> skip_invalid w \<longrightarrow> uniqueKey w \<noteq> uniqueKey v)"
    unfolding dedupe_related_keys by (auto simp: image_iff)
  then show "dedupe_related (xs @ [v]) =
       dedupe_related xs @
         (if \<not> skip_invalid v \<and> (\<forall>w \<in> set xs. \<not> skip_invalid w \<longrightarrow> uniqueKey w \<noteq> uniqueKey v)
          then [v] else [])"
    by (simp add: dedupe_related_snoc)
  show "dedupe_search (xs @ [v]) =
       dedupe_search xs @
         (if \<not> skip_invalid v \<and> (\<forall>w \<in> set (dedupe_search xs).
                id' w \<noteq> id' v \<and> title w \<noteq> title v \<and> pageURL w \<noteq> pageURL v)
          then [v] else [])"
    by (rule dedupe_search_snoc)
qed

lemma sample_not_skipped: "\<not> skip_invalid sample_video"
  by (simp add: skip_invalid_def sample_video_def num_truthy_def)

lemma dedupe_related_sample: "dedupe_related [sample_video] = [sample_video]"
  using dedupe_related_snoc [of "[]" sample_video] sample_not_skipped
  by (simp add: dedupe_related_Nil)

lemma dedupe_search_sample: "dedupe_search [sample_video] = [sample_video]"
  using dedupe_search_snoc [of "[]" sample_video] sample_not_skipped
  by (simp add: dedupe_search_Nil)

theorem dedupe_unique_subseq_witness:
  "dedupe_related ([sample_video] @ [sample_video\<lparr>title := ''B''\<rparr>])
     = [sample_video, sample_video\<lparr>title := ''B''\<rparr>]
   \<and> dedupe_search ([sample_video] @ [sample_video\<lparr>title := ''B''\<rparr>]) = [sample_video]"
proof -
  have n: "\<not> skip_invalid (sample_video\<lparr>title := ''B''\<rparr>)"
    by (simp add: skip_invalid_def sample_video_def num_truthy_def)
  have k: "uniqueKey sample_video \<noteq> uniqueKey (sample_video\<lparr>title := ''B''\<rparr>)"
    by (simp add: uniqueKey_def sample_video_def)
  show ?thesis
    using dedupe_unique_subseq [of "[sample_video]" "sample_video\<lparr>title := ''B''\<rparr>"]
      n k sample_not_skipped
    by (simp add: dedupe_related_sample dedupe_search_sample)
qed

text \<open>
  Claim C7 as stated fails in the search loop: a record with a new title and a new page
  path, hence a new triple, is dropped at its first occurrence because its id was seen.
\<close>

theorem dedupe_search_first_occurrence_counterexample:
  "dedupe_search [sample_video, sample_video\<lparr>title := ''B'', pageURL := ''videos/b-2''\<rparr>]
     = [sample_video]
   \<and> key_triple (sample_video\<lparr>title := ''B'', pageURL := ''videos/b-2''\<rparr>)
       \<noteq> key_triple sample_video"
proof -
  have "dedupe_search ([sample_video] @ [sample_video\<lparr>title := ''B'', pageURL := ''videos/b-2''\<rparr>])
      = [sample_video]"
    unfolding dedupe_search_snoc by (simp add: dedupe_search_sample)
  moreover have "key_triple (sample_video\<lparr>title := ''B'', pageURL := ''videos/b-2''\<rparr>)
       \<noteq> key_triple sample_video"
    by (simp add: key_triple_def sample_video_def)
  ultimately show ?thesis by simp
qed

text \<open>
  Claim C4. The records are those \<^verbatim>\<open>cleanVideoData\<close> returns (\<open>cleaned_key\<close>). In the
  search loop a record is dropped exactly when its id, its title or its page path equals
  that of a record kept before it. In the related-videos loop a record is dropped exactly
  when the triple of its id, title and page path equals that of a record kept before it.
  Two records that differ only in \<^verbatim>\<open>views\<close> collapse to the first under both.
\<close>

theorem dedupe_policy_asymmetry:
  assumes "\<forall>x \<in> set (xs @ [v]). cleaned_key x"
  shows "(dedupe_search (xs @ [v]) = dedupe_search xs \<longleftrightarrow>
            (\<exists>w \<in> set (dedupe_search xs).
                id' w = id' v \<or> title w = title v \<or> pageURL w = pageURL v))
       \<and> (dedupe_related (xs @ [v]) = dedupe_related xs \<longleftrightarrow>
            (\<exists>w \<in> set (dedupe_related xs). key_triple w = key_triple v))
       \<and> dedupe_related [v, v\<lparr>views := n\<rparr>] = [v]
       \<and> dedupe_search [v, v\<lparr>views := n\<rparr>] = [v]"
proof (intro conjI)
  from assms have cv: "cleaned_key v" and cx: "\<And>x. x \<in> set xs \<Longrightarrow> cleaned_key x" by simp_all
  from cv have nv: "\<not> skip_invalid v" by (rule cleaned_key_not_skipped)
  show "dedupe_search (xs @ [v]) = dedupe_search xs \<longleftrightarrow>
            (\<exists>w \<in> set (dedupe_search xs).
                id' w = id' v \<or> title w = title v \<or> pageURL w = pageURL v)"
    using nv by (auto simp: dedupe_search_snoc)
  have "uniqueKey v \<in> uniqueKey ` set (dedupe_related xs)
        \<longleftrightarrow> (\<exists>w \<in> set (dedupe_related xs). key_triple w = key_triple v)"
  proof
    assume "uniqueKey v \<in> uniqueKey ` set (dedupe_related xs)"
    then obtain w where w: "w \<in> set (dedupe_related xs)" "uniqueKey w = uniqueKey v" by auto
    then have "cleaned_key w" using cx in_dedupe_related by blast
    from uniqueKey_inj [OF this cv w(2)] w(1)
    show "\<exists>w \<in> set (dedupe_related xs). key_triple w = key_triple v" by blast
  next
    assume "\<exists>w \<in> set (dedupe_related xs). key_triple w = key_triple v"
    then show "uniqueKey v \<in> uniqueKey ` set (dedupe_related xs)"
      using key_triple_uniqueKey by (metis imageI)
  qed
  then show "dedupe_related (xs @ [v]) = dedupe_related xs \<longleftrightarrow>
            (\<exists>w \<in> set (dedupe_related xs). key_triple w = key_triple v)"
    using nv by (auto simp: dedupe_related_snoc)
  have r1: "dedupe_related [v] = [v]"
    using dedupe_related_snoc [of "[]" v] nv by (simp add: dedupe_related_Nil)
  have s1: "dedupe_search [v] = [v]"
    using dedupe_search_snoc [of "[]" v] nv by (simp add: dedupe_search_Nil)
  show "dedupe_related [v, v\<lparr>views := n\<rparr>] = [v]"
    using dedupe_related_snoc [of "[v]" "v\<lparr>views := n\<rparr>"]
    by (simp add: r1 uniqueKey_def)
  show "dedupe_search [v, v\<lparr>views := n\<rparr>] = [v]"
    using dedupe_search_snoc [of "[v]" "v\<lparr>views := n\<rparr>"]
    by (simp add: s1)
qed

lemma sample_cleaned_key: "cleaned_key sample_video"
  by (simp add: cleaned_key_def sample_video_def)

theorem dedupe_policy_asymmetry_witness:
  "cleaned_key sample_video \<and> cleaned_key (sample_video\<lparr>title := ''B''\<rparr>)
   \<and> dedupe_search ([sample_video] @ [sample_video\<lparr>title := ''B''\<rparr>]) = dedupe_search [sample_video]
   \<and> dedupe_related ([sample_video] @ [sample_video\<lparr>title := ''B''\<rparr>]) \<noteq> dedupe_related [sample_video]
   \<and> dedupe_related [sample_video\<lparr>title := ''B''\<rparr>, sample_video\<lparr>title := ''B'', views := Num 6\<rparr>]
        = [sample_video\<lparr>title := ''B''\<rparr>]
   \<and> dedupe_search [sample_video\<lparr>title := ''B''\<rparr>, sample_video\<lparr>title := ''B'', views := Num 6\<rparr>]
        = [sample_video\<lparr>title := ''B''\<rparr>]"
proof -
  have c: "\<forall>x \<in> set ([sample_video] @ [sample_video\<lparr>title := ''B''\<rparr>]). cleaned_key x"
    by (simp add: cleaned_key_def sample_video_def)
  have k: "key_triple sample_video \<noteq> key_triple (sample_video\<lparr>title := ''B''\<rparr>)"
    by (simp add: key_triple_def sample_video_def)
  show ?thesis
    using dedupe_policy_asymmetry [OF c, of "Num 6"] c k
    by (simp add: dedupe_related_sample dedupe_search_sample)
qed

subsection \<open>The validator returns on typed candidates\<close>























subsection \<open>Extraction and endpoints\<close>














lemma length_subseq: "subseq xs ys \<Longrightarrow> length xs \<le> length ys"
  by (rule list_emb_length)

lemma stats_search_body:
  assumes "search_body results info pageNum = SearchOk out info' pn m"
  shows "stat m ''totalFound'' = stat m ''uniqueVideos'' + stat m ''duplicatesRemoved''
     \<and> stat m ''uniqueVideos'' = stat m ''completeVideos'' + stat m ''filtered''
     \<and> 0 \<le> stat m ''duplicatesRemoved'' \<and> 0 \<le> stat m ''filtered''
     \<and> stat m ''totalFound'' = int (length results)
     \<and> stat m ''completeVideos'' = int (length out)"
proof -
  have a: "length (dedupe_search results) \<le> length results"
    using dedupe_search_subseq by (rule length_subseq)
  have b: "length (filter is_complete (dedupe_search results)) \<le> length (dedupe_search results)"
    by (rule length_filter_le)
  from assms have m: "m = [(''totalFound'', int (length results)),
            (''uniqueVideos'', int (length (dedupe_search results))),
            (''completeVideos'', int (length (filter is_complete (dedupe_search results)))),
            (''duplicatesRemoved'', int (length results) - int (length (dedupe_search results))),
            (''filtered'', int (length (dedupe_search results)) - int (length (filter is_complete (dedupe_search results))))]"
    and out: "out = filter is_complete (dedupe_search results)"
    by (auto simp: search_body_def Let_def)
  show ?thesis unfolding m out using a b by (simp add: stat_def)
qed

lemma stats_details_body:
  assumes "details_body data video relatedVideos = DetailsOk a b c out m"
  shows "stat m ''totalRelated'' = stat m ''uniqueRelated'' + stat m ''duplicatesRemoved''
     \<and> stat m ''uniqueRelated'' = stat m ''completeRelated'' + stat m ''filteredRelated''
     \<and> 0 \<le> stat m ''duplicatesRemoved'' \<and> 0 \<le> stat m ''filteredRelated''
     \<and> stat m ''totalRelated'' = int (length relatedVideos)
     \<and> stat m ''completeRelated'' = int (length out)"
proof -
  have a: "length (dedupe_related relatedVideos) \<le> length relatedVideos"
    using dedupe_related_subseq by (rule length_subseq)
  have b: "length (filter is_complete (dedupe_related relatedVideos)) \<le> length (dedupe_related relatedVideos)"
    by (rule length_filter_le)
  from assms have m: "m = [(''totalRelated'', int (length relatedVideos)),
            (''uniqueRelated'', int (length (dedupe_related relatedVideos))),
            (''completeRelated'', int (length (filter is_complete (dedupe_related relatedVideos)))),
            (''filteredRelated'', int (length (dedupe_related relatedVideos)) - int (length (filter is_complete (dedupe_related relatedVideos)))),
            (''duplicatesRemoved'', int (length relatedVideos) - int (length (dedupe_related relatedVideos)))]"
    and out: "out = filter is_complete (dedupe_related relatedVideos)"
    by (auto simp: details_body_def Let_def)
  show ?thesis unfolding m out using a b by (simp add: stat_def)
qed

lemma search_route_Ok:
  assumes "search_route fetch query page = (Inr (SearchOk out info pn m), reqs)"
  shows "\<exists>data results. extractSearchResults data = Inr results
           \<and> search_body results (paginationInfo data) pn = SearchOk out info pn m"
proof (cases "page_number page")
  case (Inl e)
  with assms show ?thesis by (simp add: search_route_def)
next
  case (Inr pageNum)
  show ?thesis
  proof (cases "fetch (search_url query pageNum)")
    case (FetchFailed st msg)
    with assms Inr show ?thesis by (simp add: search_route_def)
  next
    case (Fetched data)
    with assms Inr obtain results where e: "extractSearchResults data = Inr results"
      and b: "search_body results (paginationInfo data) pageNum = SearchOk out info pn m"
      by (auto simp: search_route_def bindE_Inr)
    from b have "pageNum = pn" by (simp add: search_body_def Let_def)
    with e b show ?thesis by blast
  qed
qed

lemma details_route_Ok:
  assumes "details_route fetch path = (Inr (DetailsOk a b c out m), reqs)"
  shows "\<exists>data video relatedVideos. extractRelatedVideos (related_page data) = Inr relatedVideos
           \<and> details_body data video relatedVideos = DetailsOk a b c out m"
  using assms
  by (auto simp: details_route_def Let_def bindE_Inr split: if_splits fetched.splits option.splits)

text \<open>
  The loops over the matches of a regular expression end, and the extractors return
  unless the run has left the model.
\<close>

lemma rx_match_suffix:
  "rx_match r s opens caps = Some m \<Longrightarrow> length (snd m) \<le> length s"
proof (induction r s opens caps rule: rx_match.induct)
  case (1 s opens caps)
  then show ?case by auto
next
  case (2 c r s opens caps)
  then show ?case by (cases s) (auto split: if_splits)
next
  case (3 c r s opens caps)
  show ?case
  proof (cases s)
    case Nil
    with 3 show ?thesis by simp
  next
    case (Cons x xs)
    show ?thesis
    proof (cases "in_cc c x")
      case False
      with 3 Cons show ?thesis by simp
    next
      case True
      show ?thesis
      proof (cases "rx_match (Star c # r) xs opens caps")
        case None
        with 3 Cons True show ?thesis by simp
      next
        case (Some m')
        with "3.prems" Cons True have "m' = m" by simp
        with "3.IH"(2) [OF Cons True] Some Cons show ?thesis by simp
      qed
    qed
  qed
next
  case (4 c r s opens caps)
  show ?case
  proof (cases "rx_match r s opens caps")
    case (Some m')
    with "4.prems" have "m' = m" by simp
    with "4.IH"(1) Some show ?thesis by simp
  next
    case None
    show ?thesis
    proof (cases s)
      case Nil
      with "4.prems" None show ?thesis by simp
    next
      case (Cons x xs)
      with "4.prems" None have t: "in_cc c x" and m: "rx_match (Lazy c # r) xs opens caps = Some m"
        by (auto split: if_splits)
      from "4.IH"(2) [OF None Cons t m] Cons show ?thesis by simp
    qed
  qed
next
  case (5 r s opens caps)
  then show ?case by simp
next
  case (6 r s opens caps)
  then show ?case by (cases opens) auto
qed

lemma rx_at_progress:
  assumes "rx_at (One c # r) s = Some m"
  shows "length (after m) < length s"
proof (cases s)
  case Nil
  with assms show ?thesis by (simp add: rx_at_def)
next
  case (Cons x xs)
  with assms obtain m' where m': "rx_match r xs [] [] = Some m'" and a: "after m = snd m'"
    by (auto simp: rx_at_def split: if_splits option.splits)
  from rx_match_suffix [OF m'] a Cons show ?thesis by simp
qed

lemma rx_search_progress:
  "rx_search (One c # r) s = Some m \<Longrightarrow> length (after m) < length s"
proof (induction s)
  case Nil
  then show ?case using rx_at_progress by fastforce
next
  case (Cons x xs)
  show ?case
  proof (cases "rx_at (One c # r) (x # xs)")
    case (Some m')
    with Cons.prems have "m' = m" by simp
    with Some show ?thesis using rx_at_progress by blast
  next
    case None
    with Cons.prems have "rx_search (One c # r) xs = Some m" by simp
    from Cons.IH [OF this] show ?thesis by simp
  qed
qed

lemma exec_all_returns: "exec_all (One c # r) s \<noteq> None"
proof (induction s rule: length_induct)
  case (1 s)
  show ?case
  proof (cases "rx_search (One c # r) s")
    case None
    then show ?thesis by (subst exec_all.simps) simp
  next
    case (Some m)
    from rx_search_progress [OF Some] have l: "length (after m) < length s" .
    with 1 have "exec_all (One c # r) (after m) \<noteq> None" by blast
    with Some l show ?thesis by (subst exec_all.simps) auto
  qed
qed

lemma key_number_One: "\<exists>r. key_number k = One (Ch (CHR 0x22)) # r"
  by (simp add: key_number_def lit_def)

lemma key_text_One: "\<exists>r. key_text k = One (Ch (CHR 0x22)) # r"
  by (simp add: key_text_def lit_def)

lemma videoRegex_returns: "exec_all videoRegex s \<noteq> None"
proof -
  obtain r where "key_number ''id'' = One (Ch (CHR 0x22)) # r" using key_number_One by blast
  then have "\<exists>r'. videoRegex = One (Ch (CHR 0x22)) # r'" by (simp add: videoRegex_def)
  then obtain r' where e: "videoRegex = One (Ch (CHR 0x22)) # r'" by blast
  show ?thesis unfolding e by (rule exec_all_returns)
qed

lemma jsonPattern1_returns: "exec_all jsonPattern1 s \<noteq> None"
proof -
  obtain r where "key_number ''id'' = One (Ch (CHR 0x22)) # r" using key_number_One by blast
  then have "\<exists>r'. jsonPattern1 = One (Ch (CHR 0x22)) # r'" by (simp add: jsonPattern1_def)
  then obtain r' where e: "jsonPattern1 = One (Ch (CHR 0x22)) # r'" by blast
  show ?thesis unfolding e by (rule exec_all_returns)
qed

lemma jsonPattern2_returns: "exec_all jsonPattern2 s \<noteq> None"
proof -
  obtain r where "key_text ''title'' = One (Ch (CHR 0x22)) # r" using key_text_One by blast
  then have "\<exists>r'. jsonPattern2 = One (Ch (CHR 0x22)) # r'" by (simp add: jsonPattern2_def)
  then obtain r' where e: "jsonPattern2 = One (Ch (CHR 0x22)) # r'" by blast
  show ?thesis unfolding e by (rule exec_all_returns)
qed

lemma script_rx_returns: "exec_all script_rx s \<noteq> None"
proof -
  have "\<exists>r'. script_rx = One (Ch (CHR ''<'')) # r'" by (simp add: script_rx_def lit_def)
  then obtain r' where e: "script_rx = One (Ch (CHR ''<'')) # r'" by blast
  show ?thesis unfolding e by (rule exec_all_returns)
qed

lemma json_parse_outcomes:
  "json_parse t \<noteq> Inl NoReturn \<and> json_parse t \<noteq> Inl TypeError"
proof -
  obtain m st b where "foldl json_step (WantValue False, [], False) t = (m, st, b)"
    by (cases "foldl json_step (WantValue False, [], False) t") auto
  then show ?thesis by (auto simp: json_parse_def split: option.splits)
qed

lemma catchE_outcomes:
  assumes "body = Inl NoReturn \<Longrightarrow> False"
  shows "catchE body (Inr d) = Inl Unmodelled \<or> (\<exists>r. catchE body (Inr d) = Inr r)"
  using assms by (cases body) (auto simp: catchE_def split: js_exn.splits)

lemma scan_object_outcomes:
  "scan_object objStr = Inl Unmodelled \<or> (\<exists>r. scan_object objStr = Inr r)"
  unfolding scan_object_def
  using json_parse_outcomes [of "quote_keys (trim objStr)"]
  by (intro catchE_outcomes) (auto simp: bindE_def split: sum.splits if_splits)

lemma bracket_scan_outcomes:
  "bracket_scan str = Inl Unmodelled \<or> (\<exists>r. bracket_scan str = Inr r)"
  by (simp add: bracket_scan_def Let_def)

lemma mapE_outcomes:
  assumes "\<And>x. f x = Inl Unmodelled \<or> (\<exists>r. f x = Inr r)"
  shows "mapE f xs = Inl Unmodelled \<or> (\<exists>r. mapE f xs = Inr r)"
proof (induction xs)
  case Nil
  then show ?case by simp
next
  case (Cons x xs)
  then show ?case using assms [of x] by (auto simp: bindE_def)
qed

lemma regex_video_outcomes:
  "catchE (regex_video g) (Inr []) = Inl Unmodelled \<or> (\<exists>r. catchE (regex_video g) (Inr []) = Inr r)"
proof (rule catchE_outcomes)
  assume "regex_video g = Inl NoReturn"
  then show False
    unfolding regex_video_def Let_def
    by (auto simp: bindE_def split: sum.splits if_splits dest: parseInt_string_Inl)
qed

lemma manual_parse_outcomes:
  "manual_parse str = Inl Unmodelled \<or> (\<exists>r. manual_parse str = Inr r)"
proof (cases "exec_all videoRegex str")
  case None
  with videoRegex_returns show ?thesis by blast
next
  case (Some ms)
  from mapE_outcomes [of "\<lambda>m. catchE (regex_video (groups m)) (Inr [])" ms, OF regex_video_outcomes]
  consider "mapE (\<lambda>m. catchE (regex_video (groups m)) (Inr [])) ms = Inl Unmodelled"
    | found where "mapE (\<lambda>m. catchE (regex_video (groups m)) (Inr [])) ms = Inr found"
    by blast
  then show ?thesis
  proof cases
    case 1
    with Some show ?thesis by (simp add: manual_parse_def bindE_def)
  next
    case (2 found)
    define cs where "cs = concat found"
    have m: "manual_parse str
        = (case cs of [] \<Rightarrow> bracket_scan str | v # vs \<Rightarrow> Inr (v # vs))"
      using 2 Some by (simp add: manual_parse_def bindE_def cs_def)
    show ?thesis
      unfolding m using bracket_scan_outcomes [of str] by (cases cs) auto
  qed
qed

lemma parseVideoArray_outcomes:
  "parseVideoArray str = Inl Unmodelled \<or> (\<exists>r. parseVideoArray str = Inr r)"
  unfolding parseVideoArray_def
  using manual_parse_outcomes [of str]
    json_parse_outcomes [of "quote_keys (strip_comma_brace (strip_comma_bracket (trim str)))"]
  by (intro catchE_outcomes) (auto split: sum.splits jsval.splits js_exn.splits)

lemma script_finds_outcomes:
  "script_finds marker rx content = Inl Unmodelled \<or> (\<exists>r. script_finds marker rx content = Inr r)"
proof (cases "content \<noteq> [] \<and> str_includes content ([CHR 0x22] @ marker @ [CHR 0x22])")
  case False
  then show ?thesis by (auto simp: script_finds_def)
next
  case True
  have "catchE
          (case rx_search rx content of
             None \<Rightarrow> Inr []
           | Some dataMatch \<Rightarrow> parseVideoArray (groups dataMatch ! 0))
          (Inr []) = Inl Unmodelled \<or> (\<exists>r. catchE
          (case rx_search rx content of
             None \<Rightarrow> Inr []
           | Some dataMatch \<Rightarrow> parseVideoArray (groups dataMatch ! 0))
          (Inr []) = Inr r)"
  proof (rule catchE_outcomes)
    assume a: "(case rx_search rx content of
             None \<Rightarrow> Inr []
           | Some dataMatch \<Rightarrow> parseVideoArray (groups dataMatch ! 0)) = Inl NoReturn"
    show False
    proof (cases "rx_search rx content")
      case None
      with a show ?thesis by simp
    next
      case (Some m)
      with a parseVideoArray_outcomes [of "groups m ! 0"] show ?thesis by auto
    qed
  qed
  with True show ?thesis by (simp add: script_finds_def)
qed

lemma strategy_outcomes:
  "strategy marker rx contents = Inl Unmodelled \<or> (\<exists>r. strategy marker rx contents = Inr r)"
  using mapE_outcomes [of "script_finds marker rx" contents, OF script_finds_outcomes]
  by (auto simp: strategy_def bindE_def)

lemma no_NoReturn_I: "m = Inl Unmodelled \<or> (\<exists>r. m = Inr r) \<Longrightarrow> m \<noteq> Inl NoReturn"
  by auto

lemma bindE_NoReturn:
  assumes "bindE m f = Inl NoReturn"
  shows "m = Inl NoReturn \<or> (\<exists>x. m = Inr x \<and> f x = Inl NoReturn)"
  using assms by (cases m) (auto simp: bindE_def)

lemma mapE_NoReturn:
  assumes "\<And>x. f x \<noteq> Inl NoReturn"
  shows "mapE f xs \<noteq> Inl NoReturn"
proof (induction xs)
  case Nil
  then show ?case by simp
next
  case (Cons x xs)
  then show ?case using assms [of x] by (auto simp: bindE_def split: sum.splits)
qed

lemma clean_all_NoReturn: "clean_all xs \<noteq> Inl NoReturn"
proof -
  have c: "cleanVideoData x \<noteq> Inl NoReturn" for x
  proof
    assume "cleanVideoData x = Inl NoReturn"
    moreover have "trimmed v \<noteq> Inl NoReturn" for v
      by (auto simp: trimmed_def split: jsval.splits)
    moreover have p: "parseInt v \<noteq> Inl NoReturn" for v
    proof -
      have "to_string v \<noteq> Inl NoReturn" "array_join vs \<noteq> Inl NoReturn" for vs
        by (induction v and vs rule: to_string_array_join.induct)
          (auto simp: bindE_def split: sum.splits if_splits)
      then show ?thesis
        by (auto simp: parseInt_def bindE_def split: sum.splits dest: parseInt_string_Inl)
    qed
    moreover have q: "parsed v \<noteq> Inl NoReturn" for v
      using p [of v] by (auto simp: parsed_def bindE_def split: sum.splits)
    moreover have "clean_landing v \<noteq> Inl NoReturn" for v
      using q [of "js_get v ''id''"] by (auto simp: clean_landing_def bindE_def split: sum.splits)
    ultimately show False
      unfolding cleanVideoData_def Let_def
      by (auto dest!: bindE_NoReturn split: if_splits)
  qed
  from mapE_NoReturn [of cleanVideoData xs, OF c] show ?thesis
    by (auto simp: clean_all_def bindE_def split: sum.splits)
qed

lemma pattern_scan_NoReturn:
  assumes "exec_all p h \<noteq> None"
  shows "pattern_scan p h \<noteq> Inl NoReturn"
proof -
  have v: "pattern_video g \<noteq> Inl NoReturn" for g
  proof -
    have p: "parseInt v \<noteq> Inl NoReturn" if "v = JUndefined \<or> (\<exists>s. v = JString s)" for v
      using that by (auto simp: parseInt_def bindE_def dest: parseInt_string_Inl)
    have mg: "match_group g k = JUndefined \<or> (\<exists>s. match_group g k = JString s)" for k
      by (simp add: match_group_def)
    show ?thesis
      unfolding pattern_video_def Let_def
      using p [OF mg [of 1]] p [OF mg [of 4]] p [OF mg [of 5]]
      by (auto dest!: bindE_NoReturn split: if_splits)
  qed
  have "catchE (pattern_video g) (Inr []) \<noteq> Inl NoReturn" for g
    using v [of g] by (auto simp: catchE_def split: sum.splits js_exn.splits)
  from mapE_NoReturn [of "\<lambda>m. catchE (pattern_video (groups m)) (Inr [])", OF this]
  show ?thesis using assms
    by (auto simp: pattern_scan_def bindE_def split: option.splits sum.splits)
qed

lemma related_candidates_NoReturn: "related_candidates page \<noteq> Inl NoReturn"
proof -
  have s: "strategy marker rx contents \<noteq> Inl NoReturn" for marker rx contents
    using strategy_outcomes [of marker rx contents] by (rule no_NoReturn_I)
  have w: "when_empty vs f x \<noteq> Inl NoReturn" if "f x \<noteq> Inl NoReturn" for vs f x
    using that by (auto simp: when_empty_def bindE_def split: sum.splits)
  have m5: "method5 h \<noteq> Inl NoReturn" for h
    using pattern_scan_NoReturn [OF jsonPattern1_returns, of h]
      pattern_scan_NoReturn [OF jsonPattern2_returns, of h]
    by (auto simp: method5_def pattern_scans_def bindE_def split: sum.splits)
  have m4: "method4 c \<noteq> Inl NoReturn" for c by (simp add: method4_def)
  show ?thesis
    unfolding related_candidates_def
    using s [of "''relatedVideosComponent''" component_rx "scripts page"]
      w [of method2 "scripts page", OF s [of "''videoTabInitialData''" tabData_rx "scripts page", folded method2_def]]
      w [of method3 "scripts page", OF s [of "''videoThumbProps''" thumbProps_rx "scripts page", folded method3_def]]
      w [of method4 "related_cards page", OF m4] w [of method5 "html page", OF m5]
    by (auto simp: method1_def dest!: bindE_NoReturn)
qed

lemma extractRelatedVideos_returns:
  "extractRelatedVideos page = Inl Unmodelled \<or> (\<exists>rs. extractRelatedVideos page = Inr rs)"
  unfolding extractRelatedVideos_def
  using related_candidates_NoReturn [of page] clean_all_NoReturn
  by (intro catchE_outcomes) (auto dest!: bindE_NoReturn)

lemma catchE_NoReturn:
  "body \<noteq> Inl NoReturn \<Longrightarrow> catchE body (Inr d) \<noteq> Inl NoReturn"
  by (cases body) (auto simp: catchE_def split: js_exn.splits)

lemma search_json_NoReturn: "search_json h \<noteq> Inl NoReturn"
proof (cases "rx_search searchResult_rx h")
  case None
  then show ?thesis by (simp add: search_json_def)
next
  case (Some m)
  have "bindE (json_parse (quote_keys (strip_comma_bracket (strip_comma_brace (groups m ! 0)))))
               (\<lambda>data.
                  if nullish data then Inl TypeError
                  else (case js_get data ''videoThumbProps'' of
                          JArray videoThumbProps \<Rightarrow>
                            bindE (clean_all videoThumbProps) (\<lambda>validVideos. Inr (Some validVideos))
                        | _ \<Rightarrow> Inr None)) \<noteq> Inl NoReturn"
    using json_parse_outcomes clean_all_NoReturn
    by (auto dest!: bindE_NoReturn split: if_splits jsval.splits)
  from catchE_NoReturn [OF this] Some show ?thesis by (simp add: search_json_def)
qed

lemma search_script_NoReturn: "search_script t \<noteq> Inl NoReturn"
proof -
  define content where "content = replace_first script_rx (\<lambda>g. g ! 0) t"
  have "(case rx_search thumbProps_rx content of
             None \<Rightarrow> Inr None
           | Some arrayMatch \<Rightarrow>
               bindE (json_parse (quote_keys (strip_comma_brace (strip_comma_bracket (groups arrayMatch ! 0)))))
                 (\<lambda>videosArray.
                    case videosArray of
                      JArray vs \<Rightarrow> bindE (clean_all vs) (\<lambda>validVideos. Inr (Some validVideos))
                    | _ \<Rightarrow> Inr None)) \<noteq> Inl NoReturn"
    using json_parse_outcomes clean_all_NoReturn
    by (auto dest!: bindE_NoReturn split: option.splits jsval.splits)
  from catchE_NoReturn [OF this] show ?thesis
    unfolding search_script_def Let_def content_def by simp
qed

lemma search_scripts_NoReturn: "search_scripts ts \<noteq> Inl NoReturn"
proof (induction ts)
  case Nil
  then show ?case by simp
next
  case (Cons t ts)
  then show ?case using search_script_NoReturn [of t]
    by (auto dest!: bindE_NoReturn split: option.splits)
qed

lemma extractSearchResults_returns:
  "extractSearchResults page = Inl Unmodelled \<or> (\<exists>rs. extractSearchResults page = Inr rs)"
  unfolding extractSearchResults_def
  using search_json_NoReturn search_scripts_NoReturn clean_all_NoReturn
    script_rx_returns [of "search_html page"]
  by (intro catchE_outcomes) (auto simp: search_dom_def dest!: bindE_NoReturn split: option.splits)


lemma search_route_responds:
  "fst (search_route fetch query page) = Inl Unmodelled
   \<or> (\<exists>r. fst (search_route fetch query page) = Inr r)"
proof (cases "page_number page")
  case (Inl e)
  then have "e = Unmodelled"
    by (auto simp: page_number_def bindE_def split: option.splits sum.splits jsnum.splits
        dest: parseInt_string_Inl)
  with Inl show ?thesis by (simp add: search_route_def)
next
  case (Inr pageNum)
  show ?thesis
  proof (cases "fetch (search_url query pageNum)")
    case (FetchFailed st msg)
    with Inr show ?thesis by (simp add: search_route_def)
  next
    case (Fetched data)
    with Inr extractSearchResults_returns [of data] show ?thesis
      by (auto simp: search_route_def bindE_def)
  qed
qed

lemma details_route_responds:
  "fst (details_route fetch path) = Inl Unmodelled
   \<or> (\<exists>r. fst (details_route fetch path) = Inr r)"
proof (cases "fetch (''https://xhamster19.com/'' @ path)")
  case (FetchFailed st msg)
  then show ?thesis by (simp add: details_route_def Let_def)
next
  case (Fetched data)
  with extractRelatedVideos_returns [of "related_page data"] show ?thesis
    by (cases "videoDetails data") (auto simp: details_route_def Let_def bindE_def)
qed

subsection \<open>Embedded array, strategies, endpoints\<close>

lemma sample_array_parsed: "parseVideoArray sample_array_text = Inr [sample_candidate]"
  by code_simp

lemma sample_cleaned_list: "clean_all [sample_candidate] = Inr [sample_video]"
  by (simp add: clean_all_def sample_candidate_cleaned bindE_def map_filter_def)

text \<open>
  Claim C8. \<^verbatim>\<open>parseVideoArray\<close> on the array of the example, with its unquoted keys,
  followed by \<^verbatim>\<open>cleanVideoData\<close> on each object, gives exactly one record; it is valid,
  its page path is \<^verbatim>\<open>videos/a-1\<close>, its duration 30 and its view count 5.
\<close>

theorem parse_sample_array:
  "bindE (parseVideoArray sample_array_text) clean_all = Inr [sample_video]
   \<and> valid_video sample_video \<and> pageURL sample_video = ''videos/a-1''
   \<and> duration sample_video = Some (Num 30) \<and> views sample_video = Num 5"
proof -
  have v: "valid_video sample_video"
    using cleanVideoData_Some [OF sample_candidate_cleaned] gate_valid by blast
  show ?thesis
    using sample_array_parsed sample_cleaned_list v by (simp add: bindE_def sample_video_def)
qed

lemma when_empty_Cons: "when_empty (v # vs) method input = Inr (v # vs)"
  by (simp add: when_empty_def)

lemma when_empty_Nil: "when_empty [] method input = method input"
  by (cases "method input") (simp_all add: when_empty_def bindE_def)

lemma related_candidates_first:
  "(method1 (scripts page) = Inr (v # vs) \<longrightarrow> related_candidates page = Inr (v # vs))
   \<and> (method1 (scripts page) = Inr [] \<and> method2 (scripts page) = Inr (v # vs)
        \<longrightarrow> related_candidates page = Inr (v # vs))
   \<and> (method1 (scripts page) = Inr [] \<and> method2 (scripts page) = Inr []
        \<and> method3 (scripts page) = Inr (v # vs)
        \<longrightarrow> related_candidates page = Inr (v # vs))
   \<and> (method1 (scripts page) = Inr [] \<and> method2 (scripts page) = Inr []
        \<and> method3 (scripts page) = Inr [] \<and> related_cards page = v # vs
        \<longrightarrow> related_candidates page = Inr (v # vs))"
  by (simp add: related_candidates_def bindE_def when_empty_Cons when_empty_Nil method4_def)

lemma mapE_append:
  "mapE f (xs @ ys) = bindE (mapE f xs) (\<lambda>a. bindE (mapE f ys) (\<lambda>b. Inr (a @ b)))"
proof (induction xs)
  case Nil
  then show ?case by (cases "mapE f ys") (simp_all add: bindE_def)
next
  case (Cons x xs)
  then show ?case by (simp add: bindE_def split: sum.splits)
qed

lemma strategy_append:
  "strategy marker rx (xs @ ys)
     = bindE (strategy marker rx xs) (\<lambda>a. bindE (strategy marker rx ys) (\<lambda>b. Inr (a @ b)))"
  by (simp add: strategy_def mapE_append bindE_def split: sum.splits)

lemma two_script_method1: "method1 (scripts two_script_page) = Inr [sample_candidate]"
  by code_simp

lemma two_script_method3:
  "method3 (scripts two_script_page) = Inr [sample_candidate, second_candidate]"
  by code_simp

text \<open>
  Claim C3, as the code has it. The script-embedded methods of \<^verbatim>\<open>extractRelatedVideos\<close>
  are tried in order, each later one only while \<^verbatim>\<open>videos\<close> is empty: the candidate
  collection is the finds of the first of methods 1, 2, 3 that finds anything, and the
  cards of the DOM fallback when none does and there are cards. Finds are appended to
  one collection only across the scripts within one method.
\<close>

theorem related_methods_first_nonempty:
  "(method1 (scripts page) = Inr (v # vs) \<longrightarrow> related_candidates page = Inr (v # vs))
   \<and> (method1 (scripts page) = Inr [] \<and> method2 (scripts page) = Inr (v # vs)
        \<longrightarrow> related_candidates page = Inr (v # vs))
   \<and> (method1 (scripts page) = Inr [] \<and> method2 (scripts page) = Inr []
        \<and> method3 (scripts page) = Inr (v # vs)
        \<longrightarrow> related_candidates page = Inr (v # vs))
   \<and> (method1 (scripts page) = Inr [] \<and> method2 (scripts page) = Inr []
        \<and> method3 (scripts page) = Inr [] \<and> related_cards page = v # vs
        \<longrightarrow> related_candidates page = Inr (v # vs))
   \<and> strategy marker rx (xs @ ys)
       = bindE (strategy marker rx xs) (\<lambda>a. bindE (strategy marker rx ys) (\<lambda>b. Inr (a @ b)))"
  using related_candidates_first [of page v vs] strategy_append [of marker rx xs ys] by blast

theorem related_methods_first_nonempty_witness:
  "method1 (scripts two_script_page) = Inr [sample_candidate]
   \<and> related_candidates two_script_page = Inr [sample_candidate]"
  using related_methods_first_nonempty [of two_script_page sample_candidate "[]"]
    two_script_method1
  by simp

text \<open>
  Claim C3 as stated fails: on a page where method 1 and method 3 each find records, the
  candidate collection holds the find of method 1 only; the second candidate, which only
  method 3 finds, is not in it.
\<close>

theorem related_not_cumulative_counterexample:
  "method1 (scripts two_script_page) = Inr [sample_candidate]
   \<and> method3 (scripts two_script_page) = Inr [sample_candidate, second_candidate]
   \<and> related_candidates two_script_page = Inr [sample_candidate]
   \<and> second_candidate \<noteq> sample_candidate"
proof -
  have "related_candidates two_script_page = Inr [sample_candidate]"
    using related_candidates_first [of two_script_page sample_candidate "[]"] two_script_method1
    by simp
  moreover have "second_candidate \<noteq> sample_candidate"
    by (simp add: second_candidate_def sample_candidate_def)
  ultimately show ?thesis using two_script_method1 two_script_method3 by simp
qed

text \<open>
  Claim C9. A details request whose path does not start with \<^verbatim>\<open>videos/\<close> gets the
  response 400 with the invalid-path error, and no upstream request is made: the list of
  requested URLs is empty.
\<close>

theorem details_invalid_path:
  "\<not> prefix ''videos/'' path \<Longrightarrow>
     details_route fetch path
       = (Inr (DetailsError 400 ''Invalid path. Must start with videos/'' None), [])"
  by (simp add: details_route_def)

theorem details_invalid_path_witness:
  "\<not> prefix ''videos/'' ''search/abc''
   \<and> details_route (\<lambda>url. Fetched card_details) ''search/abc''
       = (Inr (DetailsError 400 ''Invalid path. Must start with videos/'' None), [])"
  using details_invalid_path [of "''search/abc''" "\<lambda>url. Fetched card_details"]
  by simp

lemma card_page_results: "extractSearchResults card_page = Inr [sample_video]"
  by code_simp

lemma card_details_related: "extractRelatedVideos (related_page card_details) = Inr [sample_video]"
  by code_simp

lemma sample_complete: "is_complete sample_video"
  by code_simp

lemma card_search_route:
  "search_route (\<lambda>url. Fetched card_page) ''abc'' None
     = (Inr (SearchOk [sample_video] (paginationInfo card_page) 1
          [(''totalFound'', 1), (''uniqueVideos'', 1), (''completeVideos'', 1),
           (''duplicatesRemoved'', 0), (''filtered'', 0)]),
        [''https://xhamster19.com/search/abc''])"
proof -
  have u: "search_url ''abc'' 1 = ''https://xhamster19.com/search/abc''" by code_simp
  show ?thesis
    by (simp add: search_route_def page_number_def card_page_results bindE_def search_body_def
        dedupe_search_sample sample_complete u)
qed

lemma card_details_route:
  "details_route (\<lambda>url. Fetched card_details) ''videos/a-1''
     = (Inr (DetailsOk (JObject []) (JObject []) JNull [sample_video]
          [(''totalRelated'', 1), (''uniqueRelated'', 1), (''completeRelated'', 1),
           (''filteredRelated'', 0), (''duplicatesRemoved'', 0)]),
        [''https://xhamster19.com/videos/a-1''])"
proof -
  have d: "videoDetails card_details = Some (JObject [])" "metadata card_details = JObject []"
    "streamUrl card_details = JNull"
    by (simp_all add: card_details_def)
  show ?thesis
    by (simp add: details_route_def card_details_related bindE_def details_body_def
        dedupe_related_sample sample_complete d)
qed

text \<open>
  Claim C5. In every response of the search endpoint that carries \<^verbatim>\<open>meta\<close>,
  \<^verbatim>\<open>totalFound = uniqueVideos + duplicatesRemoved\<close> and
  \<^verbatim>\<open>uniqueVideos = completeVideos + filtered\<close>; in every such response of the details
  endpoint, \<^verbatim>\<open>totalRelated = uniqueRelated + duplicatesRemoved\<close> and
  \<^verbatim>\<open>uniqueRelated = completeRelated + filteredRelated\<close>. The counts are integers, none is
  negative, and \<^verbatim>\<open>meta\<close> has exactly these keys.
\<close>

theorem stats_arithmetic:
  "(search_route fetch query page = (Inr (SearchOk out info pn m), reqs) \<longrightarrow>
      stat m ''totalFound'' = stat m ''uniqueVideos'' + stat m ''duplicatesRemoved''
      \<and> stat m ''uniqueVideos'' = stat m ''completeVideos'' + stat m ''filtered''
      \<and> 0 \<le> stat m ''duplicatesRemoved'' \<and> 0 \<le> stat m ''filtered''
      \<and> map fst m = [''totalFound'', ''uniqueVideos'', ''completeVideos'',
                       ''duplicatesRemoved'', ''filtered''])
   \<and> (details_route dfetch path = (Inr (DetailsOk a b c dout dm), dreqs) \<longrightarrow>
      stat dm ''totalRelated'' = stat dm ''uniqueRelated'' + stat dm ''duplicatesRemoved''
      \<and> stat dm ''uniqueRelated'' = stat dm ''completeRelated'' + stat dm ''filteredRelated''
      \<and> 0 \<le> stat dm ''duplicatesRemoved'' \<and> 0 \<le> stat dm ''filteredRelated''
      \<and> map fst dm = [''totalRelated'', ''uniqueRelated'', ''completeRelated'',
                        ''filteredRelated'', ''duplicatesRemoved''])"
proof (intro conjI impI)
  assume "search_route fetch query page = (Inr (SearchOk out info pn m), reqs)"
  from search_route_Ok [OF this] obtain data results where
    e: "extractSearchResults data = Inr results"
    and b: "search_body results (paginationInfo data) pn = SearchOk out info pn m" by blast
  from stats_search_body [OF b]
  show "stat m ''totalFound'' = stat m ''uniqueVideos'' + stat m ''duplicatesRemoved''"
    and "stat m ''uniqueVideos'' = stat m ''completeVideos'' + stat m ''filtered''"
    and "0 \<le> stat m ''duplicatesRemoved''" and "0 \<le> stat m ''filtered''"
    by simp_all
  from b show "map fst m = [''totalFound'', ''uniqueVideos'', ''completeVideos'',
                       ''duplicatesRemoved'', ''filtered'']"
    by (auto simp: search_body_def Let_def)
next
  assume "details_route dfetch path = (Inr (DetailsOk a b c dout dm), dreqs)"
  from details_route_Ok [OF this] obtain data video relatedVideos where
    e: "extractRelatedVideos (related_page data) = Inr relatedVideos"
    and b: "details_body data video relatedVideos = DetailsOk a b c dout dm" by blast
  from stats_details_body [OF b]
  show "stat dm ''totalRelated'' = stat dm ''uniqueRelated'' + stat dm ''duplicatesRemoved''"
    and "stat dm ''uniqueRelated'' = stat dm ''completeRelated'' + stat dm ''filteredRelated''"
    and "0 \<le> stat dm ''duplicatesRemoved''" and "0 \<le> stat dm ''filteredRelated''"
    by simp_all
  from b show "map fst dm = [''totalRelated'', ''uniqueRelated'', ''completeRelated'',
                        ''filteredRelated'', ''duplicatesRemoved'']"
    by (auto simp: details_body_def Let_def)
qed

theorem stats_arithmetic_witness:
  "search_route (\<lambda>url. Fetched card_page) ''abc'' None
     = (Inr (SearchOk [sample_video] (paginationInfo card_page) 1
          [(''totalFound'', 1), (''uniqueVideos'', 1), (''completeVideos'', 1),
           (''duplicatesRemoved'', 0), (''filtered'', 0)]),
        [''https://xhamster19.com/search/abc''])
   \<and> details_route (\<lambda>url. Fetched card_details) ''videos/a-1''
     = (Inr (DetailsOk (JObject []) (JObject []) JNull [sample_video]
          [(''totalRelated'', 1), (''uniqueRelated'', 1), (''completeRelated'', 1),
           (''filteredRelated'', 0), (''duplicatesRemoved'', 0)]),
        [''https://xhamster19.com/videos/a-1''])
   \<and> stat [(''totalFound'', 1), (''uniqueVideos'', 1), (''completeVideos'', 1),
           (''duplicatesRemoved'', 0), (''filtered'', 0)] ''totalFound''
       = stat [(''totalFound'', 1), (''uniqueVideos'', 1), (''completeVideos'', 1),
           (''duplicatesRemoved'', 0), (''filtered'', 0)] ''uniqueVideos''
         + stat [(''totalFound'', 1), (''uniqueVideos'', 1), (''completeVideos'', 1),
           (''duplicatesRemoved'', 0), (''filtered'', 0)] ''duplicatesRemoved''
   \<and> stat [(''totalRelated'', 1), (''uniqueRelated'', 1), (''completeRelated'', 1),
           (''filteredRelated'', 0), (''duplicatesRemoved'', 0)] ''uniqueRelated''
       = stat [(''totalRelated'', 1), (''uniqueRelated'', 1), (''completeRelated'', 1),
           (''filteredRelated'', 0), (''duplicatesRemoved'', 0)] ''completeRelated''
         + stat [(''totalRelated'', 1), (''uniqueRelated'', 1), (''completeRelated'', 1),
           (''filteredRelated'', 0), (''duplicatesRemoved'', 0)] ''filteredRelated''"
  using stats_arithmetic
    [of "\<lambda>url. Fetched card_page" "''abc''" None "[sample_video]" "paginationInfo card_page" 1
      "[(''totalFound'', 1), (''uniqueVideos'', 1), (''completeVideos'', 1),
           (''duplicatesRemoved'', 0), (''filtered'', 0)]"
      "[''https://xhamster19.com/search/abc'']"
      "\<lambda>url. Fetched card_details" "''videos/a-1''" "JObject []" "JObject []" JNull "[sample_video]"
      "[(''totalRelated'', 1), (''uniqueRelated'', 1), (''completeRelated'', 1),
           (''filteredRelated'', 0), (''duplicatesRemoved'', 0)]"
      "[''https://xhamster19.com/videos/a-1'']"]
    card_search_route card_details_route
  by simp





end
